theory Spec2Isabelle
  imports Complex_Main "HOL-Library.List_Lexorder" "HOL-Library.Char_ord" "HOL-Library.Multiset"
    "HOL-Library.Word"
begin

section \<open>Data model\<close>

text \<open>
  The dashboard of \<^verbatim>\<open>src/app.py\<close> works on a pandas DataFrame read from a CSV file.
  A frame is modelled by its header (the column names) and its records. A cell is an
  \<open>option\<close>: \<open>None\<close> is pandas' null (NaN, NaT); the cells of a column that the header
  lacks are never read. In a file, a cell of a text column is \<open>Some\<close> of the field as it
  is written, the empty string for an empty field; \<^verbatim>\<open>read_csv\<close> turns the fields
  that pandas takes for missing into nulls. The text columns are columns that pandas reads
  as strings, as the docstring of \<^verbatim>\<open>load_data\<close> types them.

  A date is a \<^verbatim>\<open>datetime64\<close> timestamp, an integer count of time units since the epoch.

  The type \<open>'n\<close> of the \<^verbatim>\<open>total_amount\<close> column is the column's dtype: pandas reads a column
  of integers as \<^verbatim>\<open>int64\<close> and a column with a decimal point as \<^verbatim>\<open>float64\<close>. What the
  program does with the numbers of that column, summing and comparing them, is machine
  arithmetic of the dtype and comes with it, as a \<open>dtype\<close> record. The \<^verbatim>\<open>unit_price\<close>
  column is never computed with; its cells hold the number as written.
\<close>

type_synonym date = int

record 'n row =
  date :: "date option"
  order_id :: "string option"
  product :: "string option"
  category :: "string option"
  region :: "string option"
  quantity :: "int option"
  unit_price :: "rat option"
  total_amount :: "'n option"

record 'n dataframe =
  columns :: "string list"
  rows :: "'n row list"

text \<open>The exceptions raised inside the \<^verbatim>\<open>try\<close> block of \<^verbatim>\<open>load_data\<close>. \<open>TypeError i\<close> is
  the error of \<^verbatim>\<open>str.join\<close> on a sequence whose item \<open>i\<close> is not a string (a null);
  \<open>OtherError\<close> is an exception of any other class.\<close>

datatype exn = FileNotFoundError string | ValueError string | TypeError nat | OtherError string

text \<open>What a path holds: a file that \<^verbatim>\<open>pd.read_csv\<close> cannot read, with the exception it
  raises on it (\<^verbatim>\<open>EmptyDataError\<close> on a file of 0 bytes, \<^verbatim>\<open>ParserError\<close> on rows it cannot
  split, \<^verbatim>\<open>UnicodeDecodeError\<close>, all three of them \<^verbatim>\<open>ValueError\<close>s), or a CSV table.\<close>

datatype 'n csv_file = Unreadable exn | Csv "'n dataframe"

text \<open>The file system as the loader sees it.\<close>

type_synonym 'n filesystem = "string \<rightharpoonup> 'n csv_file"

text \<open>The three \<^verbatim>\<open>except\<close> clauses of \<^verbatim>\<open>load_data\<close>: each shows an error box of its own kind
  and stops the render (\<^verbatim>\<open>st.stop()\<close>).\<close>

datatype halt = DataLoadingError string | DataValidationError string | UnexpectedError exn

definition DATA_FILE_PATH :: string where
  "DATA_FILE_PATH = ''ai-dev-workflow-tutorial/data/sales-data.csv''"

definition required_columns :: "string list" where
  "required_columns = [''date'', ''order_id'', ''product'', ''category'',
                       ''region'', ''quantity'', ''unit_price'', ''total_amount'']"

definition valid_categories :: "string set" where
  "valid_categories = {''Electronics'', ''Accessories'', ''Audio'', ''Wearables'', ''Smart Home''}"

definition valid_regions :: "string set" where
  "valid_regions = {''North'', ''South'', ''East'', ''West''}"

section \<open>The arithmetic of a column\<close>

text \<open>
  The machine arithmetic of the \<^verbatim>\<open>total_amount\<close> column, as far as the program uses it:
  \<^item> \<open>sum_of\<close> is \<^verbatim>\<open>Series.sum()\<close> on the values of a column that has some;
  \<^item> \<open>group_sum_of\<close> is the sum that \<^verbatim>\<open>groupby(...).sum()\<close> takes of the values of a
    group; pandas computes it by another routine than \<^verbatim>\<open>Series.sum()\<close>;
  \<^item> \<open>key_of\<close> gives a value its place in the order of the dtype, the order that
    \<^verbatim>\<open><=\<close> compares by and \<^verbatim>\<open>sort_values\<close> sorts by.
  For \<^verbatim>\<open>float64\<close> the sums round, and differently in the two routines; nothing is
  assumed about them here.
\<close>

record 'n dtype =
  sum_of :: "'n list \<Rightarrow> 'n"
  group_sum_of :: "'n list \<Rightarrow> 'n"
  key_of :: "'n \<Rightarrow> int"

text \<open>\<^verbatim>\<open>int64\<close>: sums wrap around at 64 bits, whatever the order of the additions;
  the order is that of two's complement.\<close>

definition int64 :: "64 word dtype" where
  "int64 = \<lparr> sum_of = sum_list, group_sum_of = sum_list, key_of = sint \<rparr>"

section \<open>The pandas operations the program uses\<close>

text \<open>\<^verbatim>\<open>series.isnull().any()\<close>\<close>

definition isnull_any :: "'a option list \<Rightarrow> bool" where
  "isnull_any xs = (None \<in> set xs)"

text \<open>\<^verbatim>\<open>(series <= 0).any()\<close> and \<^verbatim>\<open>(series < 1).any()\<close>: a comparison with a null is False.\<close>

definition le_any :: "'n dtype \<Rightarrow> 'n option list \<Rightarrow> 'n \<Rightarrow> bool" where
  "le_any dt xs b =
     list_ex (\<lambda>c. case c of None \<Rightarrow> False | Some v \<Rightarrow> key_of dt v \<le> key_of dt b) xs"

definition lt_any :: "int option list \<Rightarrow> int \<Rightarrow> bool" where
  "lt_any xs b = list_ex (\<lambda>c. case c of None \<Rightarrow> False | Some v \<Rightarrow> v < b) xs"

text \<open>\<^verbatim>\<open>series.isin(values)\<close>: a null is in no set of strings.\<close>

definition isin :: "string set \<Rightarrow> string option \<Rightarrow> bool" where
  "isin vs c = (case c of None \<Rightarrow> False | Some s \<Rightarrow> s \<in> vs)"

text \<open>\<^verbatim>\<open>series.unique()\<close>: the distinct values in order of first appearance, nulls included.\<close>

definition unique :: "'a list \<Rightarrow> 'a list" where
  "unique xs = rev (remdups (rev xs))"

text \<open>\<^verbatim>\<open>sep.join(strings)\<close>\<close>

fun join :: "string \<Rightarrow> string list \<Rightarrow> string" where
  "join sep [] = []"
| "join sep [s] = s"
| "join sep (s # t # ss) = s @ sep @ join sep (t # ss)"

text \<open>\<^verbatim>\<open>sep.join(cells)\<close> on the values of a column: the first null raises TypeError with
  its index.\<close>

fun first_null :: "nat \<Rightarrow> 'a option list \<Rightarrow> nat option" where
  "first_null i [] = None"
| "first_null i (None # cs) = Some i"
| "first_null i (Some v # cs) = first_null (Suc i) cs"

definition join_cells :: "string \<Rightarrow> string option list \<Rightarrow> exn + string" where
  "join_cells sep cs =
     (case first_null 0 cs of
        Some i \<Rightarrow> Inl (TypeError i)
      | None \<Rightarrow> Inr (join sep (List.map_filter (\<lambda>c. c) cs)))"

text \<open>\<^verbatim>\<open>series.sum()\<close>: nulls are skipped (\<^verbatim>\<open>skipna=True\<close>); the sum of no value is 0
  (\<^verbatim>\<open>min_count=0\<close>).\<close>

definition series_sum :: "'n::zero dtype \<Rightarrow> 'n option list \<Rightarrow> 'n" where
  "series_sum dt xs =
     (case List.map_filter (\<lambda>c. c) xs of [] \<Rightarrow> 0 | v # vs \<Rightarrow> sum_of dt (v # vs))"

text \<open>The sum of one group of \<^verbatim>\<open>groupby(...).sum()\<close>, with the same treatment of nulls.\<close>

definition group_sum :: "'n::zero dtype \<Rightarrow> 'n option list \<Rightarrow> 'n" where
  "group_sum dt xs =
     (case List.map_filter (\<lambda>c. c) xs of [] \<Rightarrow> 0 | v # vs \<Rightarrow> group_sum_of dt (v # vs))"

text \<open>\<^verbatim>\<open>series.nunique()\<close>: the number of distinct values, nulls not counted.\<close>

definition nunique :: "'a option list \<Rightarrow> nat" where
  "nunique xs = length (remdups (List.map_filter (\<lambda>c. c) xs))"

text \<open>\<^verbatim>\<open>df.groupby(key)['total_amount'].sum()\<close>: one entry per distinct key, in ascending
  key order (\<^verbatim>\<open>sort=True\<close>), with the sum of the group's amounts in the order of the
  records; records whose key is null belong to no group (\<^verbatim>\<open>dropna=True\<close>).\<close>

definition groupby_sum ::
  "'n::zero dtype \<Rightarrow> ('n row \<Rightarrow> 'k::linorder option) \<Rightarrow> 'n row list \<Rightarrow> ('k \<times> 'n) list" where
  "groupby_sum dt key rs =
     map (\<lambda>k. (k, group_sum dt (map total_amount (filter (\<lambda>r. key r = Some k) rs))))
         (sort (remdups (List.map_filter key rs)))"

text \<open>\<^verbatim>\<open>series.sort_values(ascending=False)\<close>: pandas reverses the series, sorts it
  ascending and reverses the result. The sort is modelled as stable, so entries with
  equal sums keep the order the grouping gave them.\<close>

definition sort_values_desc :: "'n dtype \<Rightarrow> ('k \<times> 'n) list \<Rightarrow> ('k \<times> 'n) list" where
  "sort_values_desc dt xs = rev (sort_key (\<lambda>e. key_of dt (snd e)) (rev xs))"

section \<open>Data Loader\<close>

text \<open>The fields that \<^verbatim>\<open>read_csv\<close> takes for missing values (its default \<^verbatim>\<open>na_values\<close>, pandas
  2): the empty field first of all.\<close>

definition na_values :: "string set" where
  "na_values = {'''', ''#N/A'', ''#N/A N/A'', ''#NA'', ''-1.#IND'', ''-1.#QNAN'', ''-NaN'',
     ''-nan'', ''1.#IND'', ''1.#QNAN'', ''<NA>'', ''N/A'', ''NA'', ''NULL'', ''NaN'', ''None'',
     ''n/a'', ''nan'', ''null''}"

definition na_cell :: "string option \<Rightarrow> string option" where
  "na_cell c = (case c of None \<Rightarrow> None | Some s \<Rightarrow> if s \<in> na_values then None else Some s)"

definition na_row :: "'n row \<Rightarrow> 'n row" where
  "na_row r = r\<lparr> order_id := na_cell (order_id r), product := na_cell (product r),
                category := na_cell (category r), region := na_cell (region r) \<rparr>"

text \<open>The frame that \<^verbatim>\<open>read_csv\<close> makes of a CSV table.\<close>

definition parsed :: "'n dataframe \<Rightarrow> 'n dataframe" where
  "parsed df = df\<lparr> rows := map na_row (rows df) \<rparr>"

definition parse_dates_missing :: string where
  "parse_dates_missing = ''Missing column provided to 'parse_dates': 'date'' @ [CHR 0x27]"

text \<open>\<^verbatim>\<open>pd.read_csv(filepath, parse_dates=['date'])\<close>: it raises on a file it cannot read, and
  raises ValueError when the column to parse as dates is not in the header.\<close>

fun read_csv :: "'n csv_file \<Rightarrow> exn + 'n dataframe" where
  "read_csv (Unreadable e) = Inl e"
| "read_csv (Csv df) =
     (if ''date'' \<in> set (columns df) then Inr (parsed df)
      else Inl (ValueError parse_dates_missing))"

text \<open>The file of 0 bytes.\<close>

definition empty_file :: "'n csv_file" where
  "empty_file = Unreadable (ValueError ''No columns to parse from file'')"

text \<open>The checks of \<^verbatim>\<open>load_data\<close> after the file is read, in the order of the source.\<close>

definition validate :: "'n::zero dtype \<Rightarrow> 'n dataframe \<Rightarrow> exn + 'n dataframe" where
  "validate dt df =
     (let missing_cols = filter (\<lambda>col. col \<notin> set (columns df)) required_columns in
      if missing_cols \<noteq> [] then
        Inl (ValueError (''CSV is missing required columns: '' @ join '', '' missing_cols))
      else if isnull_any (map total_amount (rows df)) then
        Inl (ValueError ''Data contains missing transaction amounts'')
      else if isnull_any (map order_id (rows df)) then
        Inl (ValueError ''Data contains missing order IDs'')
      else if le_any dt (map total_amount (rows df)) 0 then
        Inl (ValueError ''Data contains non-positive transaction amounts'')
      else if lt_any (map quantity (rows df)) 1 then
        Inl (ValueError ''Data contains invalid quantities (must be >= 1)'')
      else
        let invalid_cats = unique (filter (\<lambda>c. \<not> isin valid_categories c) (map category (rows df))) in
        if length invalid_cats > 0 then
          (case join_cells '', '' invalid_cats of
             Inl e \<Rightarrow> Inl e
           | Inr s \<Rightarrow> Inl (ValueError (''Data contains invalid categories: '' @ s)))
        else
          let invalid_regions = unique (filter (\<lambda>c. \<not> isin valid_regions c) (map region (rows df))) in
          if length invalid_regions > 0 then
            (case join_cells '', '' invalid_regions of
               Inl e \<Rightarrow> Inl e
             | Inr s \<Rightarrow> Inl (ValueError (''Data contains invalid regions: '' @ s)))
          else Inr df)"

text \<open>The message of the \<^verbatim>\<open>FileNotFoundError\<close> that \<^verbatim>\<open>load_data\<close> raises.\<close>

definition not_found_message :: "string \<Rightarrow> string" where
  "not_found_message filepath =
     ''Data file not found at: '' @ filepath @ ''. '' @
     ''Please ensure sales-data.csv exists in the ai-dev-workflow-tutorial/data/ directory.''"

text \<open>The body of the \<^verbatim>\<open>try\<close> block.\<close>

definition load_data_try :: "'n::zero dtype \<Rightarrow> 'n filesystem \<Rightarrow> string \<Rightarrow> exn + 'n dataframe" where
  "load_data_try dt fs filepath =
     (case fs filepath of
        None \<Rightarrow> Inl (FileNotFoundError (not_found_message filepath))
      | Some file \<Rightarrow>
          (case read_csv file of
             Inl e \<Rightarrow> Inl e
           | Inr df \<Rightarrow> validate dt df))"

text \<open>The \<^verbatim>\<open>except\<close> clauses, first match first.\<close>

definition handle_exn :: "exn + 'n dataframe \<Rightarrow> halt + 'n dataframe" where
  "handle_exn r =
     (case r of
        Inr df \<Rightarrow> Inr df
      | Inl (FileNotFoundError m) \<Rightarrow> Inl (DataLoadingError m)
      | Inl (ValueError m) \<Rightarrow> Inl (DataValidationError m)
      | Inl e \<Rightarrow> Inl (UnexpectedError e))"

text \<open>\<^verbatim>\<open>load_data\<close> without its cache.\<close>

definition load_data :: "'n::zero dtype \<Rightarrow> 'n filesystem \<Rightarrow> string \<Rightarrow> halt + 'n dataframe" where
  "load_data dt fs filepath = handle_exn (load_data_try dt fs filepath)"

text \<open>\<^verbatim>\<open>@st.cache_data\<close>: the cache is keyed by the argument of the call, the file path.
  A call whose key is cached returns the stored frame and does not run the body; a call
  that returns stores its result; a call that stops the render stores nothing.\<close>

type_synonym 'n cache = "string \<rightharpoonup> 'n dataframe"

definition load_data_cached ::
  "'n::zero dtype \<Rightarrow> 'n cache \<Rightarrow> 'n filesystem \<Rightarrow> string \<Rightarrow> (halt + 'n dataframe) \<times> 'n cache" where
  "load_data_cached dt c fs filepath =
     (case c filepath of
        Some df \<Rightarrow> (Inr df, c)
      | None \<Rightarrow>
          (case load_data dt fs filepath of
             Inl h \<Rightarrow> (Inl h, c)
           | Inr df \<Rightarrow> (Inr df, c(filepath \<mapsto> df))))"

text \<open>A sequence of calls with the same path, the file system changing between calls.\<close>

fun load_seq ::
  "'n::zero dtype \<Rightarrow> 'n cache \<Rightarrow> 'n filesystem list \<Rightarrow> string \<Rightarrow> (halt + 'n dataframe) list" where
  "load_seq dt c [] filepath = []"
| "load_seq dt c (fs # fss) filepath =
     (case load_data_cached dt c fs filepath of (r, c') \<Rightarrow> r # load_seq dt c' fss filepath)"

section \<open>Aggregator\<close>

record 'n kpis =
  total_sales :: 'n
  total_orders :: nat

definition calculate_kpis :: "'n::zero dtype \<Rightarrow> 'n dataframe \<Rightarrow> 'n kpis" where
  "calculate_kpis dt df =
     \<lparr> total_sales = series_sum dt (map total_amount (rows df)),
       total_orders = nunique (map order_id (rows df)) \<rparr>"

text \<open>\<^verbatim>\<open>daily_sales\<close> of \<^verbatim>\<open>create_sales_trend_chart\<close> (the spec's aggregateByDate).\<close>

definition daily_sales :: "'n::zero dtype \<Rightarrow> 'n dataframe \<Rightarrow> (date \<times> 'n) list" where
  "daily_sales dt df = groupby_sum dt date (rows df)"

text \<open>\<^verbatim>\<open>category_sales\<close> of \<^verbatim>\<open>create_category_chart\<close> (the spec's aggregateByCategory).\<close>

definition category_sales :: "'n::zero dtype \<Rightarrow> 'n dataframe \<Rightarrow> (string \<times> 'n) list" where
  "category_sales dt df = sort_values_desc dt (groupby_sum dt category (rows df))"

section \<open>Chart Builders\<close>

text \<open>A figure of Plotly Express, as the data and the settings the builders give it.\<close>

datatype chart_kind = Line | Bar

datatype xvalues = Dates "date list" | Labels "string list"

record 'n figure =
  fig_kind :: chart_kind
  fig_title :: string
  fig_x :: xvalues
  fig_y :: "'n list"
  fig_xlabel :: string
  fig_ylabel :: string
  fig_color :: string
  fig_hovertemplate :: string
  fig_yaxis_tickformat :: string
  fig_categoryorder :: "string option"
  fig_height :: nat

definition create_sales_trend_chart :: "'n::zero dtype \<Rightarrow> 'n dataframe \<Rightarrow> 'n figure" where
  "create_sales_trend_chart dt df =
     \<lparr> fig_kind = Line,
       fig_title = ''Sales Trend Over Time'',
       fig_x = Dates (map fst (daily_sales dt df)),
       fig_y = map snd (daily_sales dt df),
       fig_xlabel = ''Date'',
       fig_ylabel = ''Sales ($)'',
       fig_color = ''#1f77b4'',
       fig_hovertemplate =
         ''<b>Date</b>: %{x|%Y-%m-%d}<br>'' @ ''<b>Sales</b>: $%{y:,.2f}<extra></extra>'',
       fig_yaxis_tickformat = ''$,.0f'',
       fig_categoryorder = None,
       fig_height = 400 \<rparr>"

definition create_category_chart :: "'n::zero dtype \<Rightarrow> 'n dataframe \<Rightarrow> 'n figure" where
  "create_category_chart dt df =
     \<lparr> fig_kind = Bar,
       fig_title = ''Sales by Product Category'',
       fig_x = Labels (map fst (category_sales dt df)),
       fig_y = map snd (category_sales dt df),
       fig_xlabel = ''Product Category'',
       fig_ylabel = ''Total Sales ($)'',
       fig_color = ''#2ca02c'',
       fig_hovertemplate = ''<b>%{x}</b><br>Sales: $%{y:,.2f}<extra></extra>'',
       fig_yaxis_tickformat = ''$,.0f'',
       fig_categoryorder = Some ''total descending'',
       fig_height = 400 \<rparr>"

section \<open>The page\<close>

text \<open>What a render puts on the page, in order: each element with the container it is
  written into. \<open>Col1\<close> and \<open>Col2\<close> are the columns of the first \<^verbatim>\<open>st.columns(2)\<close>,
  \<open>Col3\<close> and \<open>Col4\<close> those of the second. A metric keeps the number it shows and the
  format it is shown in: \<open>Currency\<close> is \<^verbatim>\<open>f"${v:,.2f}"\<close>, \<open>Grouped\<close> is \<^verbatim>\<open>f"{v:,}"\<close>.\<close>

datatype container = Page | Col1 | Col2 | Col3 | Col4

datatype 'n metric_value = Currency 'n | Grouped nat

datatype 'n element =
    Title string
  | ErrorBox halt
  | Metric string "'n metric_value"
  | PlotlyChart "'n figure"

text \<open>\<^verbatim>\<open>main\<close>: the title (its leading pictograph left out), the cached load, and on success
  the two KPI cards and the charts. A failed load shows its error box and stops the
  render.\<close>

definition main ::
  "'n::zero dtype \<Rightarrow> 'n cache \<Rightarrow> 'n filesystem \<Rightarrow> (container \<times> 'n element) list \<times> 'n cache" where
  "main dt c fs =
     (case load_data_cached dt c fs DATA_FILE_PATH of
        (Inl h, c') \<Rightarrow>
          ([(Page, Title ''ShopSmart Sales Dashboard''), (Page, ErrorBox h)], c')
      | (Inr df, c') \<Rightarrow>
          (let kpis = calculate_kpis dt df;
               total_sales = total_sales kpis;
               total_orders = total_orders kpis
           in ([(Page, Title ''ShopSmart Sales Dashboard''),
                (Col1, Metric ''Total Sales'' (Currency total_sales)),
                (Col2, Metric ''Total Orders'' (Grouped total_orders)),
                (Page, PlotlyChart (create_sales_trend_chart dt df)),
                (Col3, PlotlyChart (create_category_chart dt df))], c')))"

fun is_chart :: "container \<times> 'n element \<Rightarrow> bool" where
  "is_chart (_, PlotlyChart _) = True"
| "is_chart _ = False"

fun is_metric :: "container \<times> 'n element \<Rightarrow> bool" where
  "is_metric (_, Metric _ _) = True"
| "is_metric _ = False"

text \<open>The figures among the elements of a page.\<close>

definition charts :: "(container \<times> 'n element) list \<Rightarrow> 'n figure list" where
  "charts page = List.map_filter (\<lambda>w. case snd w of PlotlyChart f \<Rightarrow> Some f | _ \<Rightarrow> None) page"

section \<open>Example tables\<close>

text \<open>The example of the spec's testable properties: three records, two of them line
  items of order A on the same day. Day numbers stand for the dates (19723 is
  2024-01-01). The amounts are integers, so the column is \<^verbatim>\<open>int64\<close>.\<close>

definition example_rows :: "64 word row list" where
  "example_rows =
     [\<lparr> date = Some 19723, order_id = Some ''A'', product = Some ''Laptop'',
        category = Some ''Electronics'', region = Some ''North'', quantity = Some 1,
        unit_price = Some 10, total_amount = Some 10 \<rparr>,
      \<lparr> date = Some 19723, order_id = Some ''A'', product = Some ''Cable'',
        category = Some ''Accessories'', region = Some ''North'', quantity = Some 1,
        unit_price = Some 5, total_amount = Some 5 \<rparr>,
      \<lparr> date = Some 19724, order_id = Some ''B'', product = Some ''Speaker'',
        category = Some ''Audio'', region = Some ''West'', quantity = Some 1,
        unit_price = Some 7, total_amount = Some 7 \<rparr>]"

definition example_table :: "64 word dataframe" where
  "example_table = \<lparr> columns = required_columns, rows = example_rows \<rparr>"

definition example_fs :: "64 word filesystem" where
  "example_fs = [DATA_FILE_PATH \<mapsto> Csv example_table]"

text \<open>A file that violates four checks at once: an empty order id field, a quantity of 0,
  a category and a region outside their sets.\<close>

definition bad_table :: "64 word dataframe" where
  "bad_table = \<lparr> columns = required_columns,
     rows = [\<lparr> date = Some 19723, order_id = Some '''', product = Some ''Laptop'',
        category = Some ''Garden'', region = Some ''Mars'', quantity = Some 0,
        unit_price = Some 10, total_amount = Some 10 \<rparr>] \<rparr>"

text \<open>The example with unit prices zero, negative and missing.\<close>

definition odd_price :: "64 word row \<Rightarrow> rat option" where
  "odd_price r =
     (if product r = Some ''Laptop'' then Some 0
      else if product r = Some ''Cable'' then Some (- 1) else None)"

definition odd_price_table :: "64 word dataframe" where
  "odd_price_table = example_table\<lparr>rows := map (\<lambda>r. r\<lparr>unit_price := odd_price r\<rparr>) (rows example_table)\<rparr>"





text \<open>The example file after an edit that leaves only its first record.\<close>

definition changed_table :: "64 word dataframe" where
  "changed_table = \<lparr> columns = required_columns, rows = take 1 example_rows \<rparr>"

definition changed_fs :: "64 word filesystem" where
  "changed_fs = [DATA_FILE_PATH \<mapsto> Csv changed_table]"

text \<open>The example with the date of order B missing (an empty date field of the file).\<close>

definition undated_table :: "64 word dataframe" where
  "undated_table = example_table\<lparr>rows :=
     map (\<lambda>r. if order_id r = Some ''B'' then r\<lparr>date := None\<rparr> else r) (rows example_table)\<rparr>"

text \<open>The example with a second record of category Electronics: two records make up the
  sales of Electronics, which then equal those of Accessories.\<close>

definition tie_table :: "64 word dataframe" where
  "tie_table = example_table\<lparr>rows :=
     map (\<lambda>r. if product r = Some ''Laptop'' then r\<lparr>total_amount := Some 3\<rparr> else r)
         (rows example_table) @
     [\<lparr> date = Some 19725, order_id = Some ''C'', product = Some ''Phone'',
        category = Some ''Electronics'', region = Some ''East'', quantity = Some 1,
        unit_price = Some 2, total_amount = Some 2 \<rparr>]\<rparr>"

text \<open>Two records whose amounts add up to \<open>2 ^ 63\<close>, one more than the largest \<^verbatim>\<open>int64\<close>.\<close>

definition overflow_table :: "64 word dataframe" where
  "overflow_table = \<lparr> columns = required_columns,
     rows = [\<lparr> date = Some 19723, order_id = Some ''A'', product = Some ''Laptop'',
        category = Some ''Electronics'', region = Some ''North'', quantity = Some 1,
        unit_price = Some 1, total_amount = Some 9223372036854775807 \<rparr>,
      \<lparr> date = Some 19723, order_id = Some ''B'', product = Some ''Cable'',
        category = Some ''Accessories'', region = Some ''North'', quantity = Some 1,
        unit_price = Some 1, total_amount = Some 1 \<rparr>] \<rparr>"

section \<open>The validation order of the spec\<close>

text \<open>The checks as the spec names them, in the order it gives: existence, schema, the
  null checks (\<^verbatim>\<open>total_amount\<close> then \<^verbatim>\<open>order_id\<close>), positivity (\<^verbatim>\<open>total_amount\<close> then
  \<^verbatim>\<open>quantity\<close>), the category enum, the region enum.\<close>

datatype check =
  Existence | Schema | NullAmount | NullOrderId | PositiveAmount | QuantityMin
  | CategoryEnum | RegionEnum

definition check_order :: "check list" where
  "check_order = [Existence, Schema, NullAmount, NullOrderId, PositiveAmount, QuantityMin,
                  CategoryEnum, RegionEnum]"

text \<open>When a check is violated, each check looked at alone. The argument is what the path
  holds: nothing, a file that cannot be read, or a table; the checks of the content look
  at the table as it is read. A file that cannot be read violates none of the eight.\<close>

fun violated :: "'n::zero dtype \<Rightarrow> 'n csv_file option \<Rightarrow> check \<Rightarrow> bool" where
  "violated dt None c = (c = Existence)"
| "violated dt (Some (Unreadable e)) c = False"
| "violated dt (Some (Csv df)) Existence = False"
| "violated dt (Some (Csv df)) Schema = (\<exists>col\<in>set required_columns. col \<notin> set (columns df))"
| "violated dt (Some (Csv df)) NullAmount = (\<exists>r\<in>set (rows (parsed df)). total_amount r = None)"
| "violated dt (Some (Csv df)) NullOrderId = (\<exists>r\<in>set (rows (parsed df)). order_id r = None)"
| "violated dt (Some (Csv df)) PositiveAmount =
     (\<exists>r\<in>set (rows (parsed df)). \<exists>v. total_amount r = Some v \<and> key_of dt v \<le> key_of dt 0)"
| "violated dt (Some (Csv df)) QuantityMin =
     (\<exists>r\<in>set (rows (parsed df)). \<exists>q. quantity r = Some q \<and> q < 1)"
| "violated dt (Some (Csv df)) CategoryEnum =
     (\<exists>r\<in>set (rows (parsed df)). category r \<notin> Some ` valid_categories)"
| "violated dt (Some (Csv df)) RegionEnum =
     (\<exists>r\<in>set (rows (parsed df)). region r \<notin> Some ` valid_regions)"

definition first_violated :: "'n::zero dtype \<Rightarrow> 'n csv_file option \<Rightarrow> check option" where
  "first_violated dt content = find (violated dt content) check_order"

text \<open>The failure a violated enum check reports: the offending distinct values joined into
  a validation message, or the \<^verbatim>\<open>TypeError\<close> of the join when one of them is a null.\<close>

definition outside :: "string set \<Rightarrow> string \<Rightarrow> string option list \<Rightarrow> halt" where
  "outside vs pre cells =
     (case join_cells '', '' (unique (filter (\<lambda>c. \<not> isin vs c) cells)) of
        Inl e \<Rightarrow> UnexpectedError e
      | Inr s \<Rightarrow> DataValidationError (pre @ s))"

text \<open>The failure each check reports; it reads the data of its own check only. A header
  without \<^verbatim>\<open>date\<close> is reported by \<^verbatim>\<open>read_csv\<close>, any other missing column by the check of
  \<^verbatim>\<open>load_data\<close>.\<close>

fun failure :: "string \<Rightarrow> 'n csv_file option \<Rightarrow> check \<Rightarrow> halt" where
  "failure p (Some (Csv df)) Schema =
     DataValidationError
       (if ''date'' \<in> set (columns df)
        then ''CSV is missing required columns: '' @
               join '', '' (filter (\<lambda>col. col \<notin> set (columns df)) required_columns)
        else parse_dates_missing)"
| "failure p (Some (Csv df)) NullAmount = DataValidationError ''Data contains missing transaction amounts''"
| "failure p (Some (Csv df)) NullOrderId = DataValidationError ''Data contains missing order IDs''"
| "failure p (Some (Csv df)) PositiveAmount =
     DataValidationError ''Data contains non-positive transaction amounts''"
| "failure p (Some (Csv df)) QuantityMin =
     DataValidationError ''Data contains invalid quantities (must be >= 1)''"
| "failure p (Some (Csv df)) CategoryEnum =
     outside valid_categories ''Data contains invalid categories: '' (map category (rows (parsed df)))"
| "failure p (Some (Csv df)) RegionEnum =
     outside valid_regions ''Data contains invalid regions: '' (map region (rows (parsed df)))"
| "failure p content c = DataLoadingError (not_found_message p)"

section \<open>Auxiliary notions\<close>

text \<open>What a record adds to a sum of the \<^verbatim>\<open>total_amount\<close> column: a null adds nothing.\<close>

definition amount :: "'n::zero row \<Rightarrow> 'n" where
  "amount r = (case total_amount r of None \<Rightarrow> 0 | Some v \<Rightarrow> v)"

text \<open>A dtype whose two sums are exact in its own addition, an addition that is associative
  and commutative, as that of \<^verbatim>\<open>int64\<close> is and that of \<^verbatim>\<open>float64\<close> is not.\<close>

definition exact_sums :: "'n::comm_monoid_add dtype \<Rightarrow> bool" where
  "exact_sums dt \<longleftrightarrow> sum_of dt = sum_list \<and> group_sum_of dt = sum_list"

section \<open>What a successful load guarantees\<close>

lemma columns_parsed [simp]: "columns (parsed df) = columns df"
  by (simp add: parsed_def)

lemma rows_parsed: "rows (parsed df) = map na_row (rows df)"
  by (simp add: parsed_def)

lemma validate_Inr:
  assumes "validate dt df = Inr df'"
  shows "df' = df"
    and "set required_columns \<subseteq> set (columns df)"
    and "\<not> isnull_any (map total_amount (rows df))"
    and "\<not> isnull_any (map order_id (rows df))"
    and "\<not> le_any dt (map total_amount (rows df)) 0"
    and "\<not> lt_any (map quantity (rows df)) 1"
    and "\<forall>r\<in>set (rows df). isin valid_categories (category r)"
    and "\<forall>r\<in>set (rows df). isin valid_regions (region r)"
  using assms
  by (auto simp: validate_def Let_def unique_def filter_empty_conv split: if_splits sum.splits)

lemma handle_exn_Inr: "handle_exn r = Inr d \<longleftrightarrow> r = Inr d"
  by (auto simp: handle_exn_def split: sum.splits exn.splits)

lemma load_data_Inr:
  assumes "load_data dt fs p = Inr d"
  shows "\<exists>df. fs p = Some (Csv df) \<and> d = parsed df" and "validate dt d = Inr d"
proof -
  from assms have t: "load_data_try dt fs p = Inr d"
    by (simp add: load_data_def handle_exn_Inr)
  then obtain f where f: "fs p = Some f"
    by (auto simp: load_data_try_def split: option.splits)
  with t obtain d' where r: "read_csv f = Inr d'" and v: "validate dt d' = Inr d"
    by (auto simp: load_data_try_def split: sum.splits)
  from v have "d = d'" by (rule validate_Inr(1))
  then have e: "d' = d" by simp
  with v show "validate dt d = Inr d" by simp
  from r obtain df where "f = Csv df" "d' = parsed df"
    by (cases f) (auto split: if_splits)
  with f e show "\<exists>df. fs p = Some (Csv df) \<and> d = parsed df" by auto
qed

lemma na_row_example: "map na_row example_rows = example_rows"
  by (simp add: example_rows_def na_row_def na_cell_def na_values_def)

lemma parsed_example: "parsed example_table = example_table"
  by (simp add: parsed_def example_table_def na_row_example)

lemma example_table_loads: "load_data int64 example_fs DATA_FILE_PATH = Inr example_table"
  using parsed_example
  by (simp add: load_data_def handle_exn_def load_data_try_def validate_def example_fs_def
      example_table_def example_rows_def required_columns_def isnull_any_def le_any_def
      lt_any_def unique_def isin_def valid_categories_def valid_regions_def int64_def)

section \<open>Null-free columns\<close>

lemma map_filter_no_null: "None \<notin> set xs \<Longrightarrow> List.map_filter (\<lambda>c. c) xs = map the xs"
proof (induction xs)
  case Nil
  show ?case by (simp add: List.map_filter_simps)
next
  case (Cons a xs)
  then show ?case by (cases a) (simp_all add: List.map_filter_simps)
qed



lemma nunique_no_null:
  "\<not> isnull_any (map f rs) \<Longrightarrow> nunique (map f rs) = card ((\<lambda>r. the (f r)) ` set rs)"
  by (simp add: nunique_def isnull_any_def map_filter_no_null length_remdups_card_conv image_image)

lemma nunique_le: "nunique xs \<le> length xs"
proof -
  have "length (List.map_filter (\<lambda>c. c) xs) \<le> length xs"
    by (induction xs) (auto simp: List.map_filter_simps split: option.splits)
  moreover have "nunique xs \<le> length (List.map_filter (\<lambda>c. c) xs)"
    unfolding nunique_def by (rule length_remdups_leq)
  ultimately show ?thesis by simp
qed

lemma distinct_map_once:
  "distinct (map f xs) \<longleftrightarrow> (\<forall>x\<in>set xs. length (filter (\<lambda>y. f y = f x) xs) = 1)"
proof (induction xs)
  case Nil
  show ?case by simp
next
  case (Cons a xs)
  have head: "length (filter (\<lambda>y. f y = f a) (a # xs)) = 1 \<longleftrightarrow> f a \<notin> f ` set xs"
    by (simp add: filter_empty_conv image_iff) metis
  show ?case
  proof (cases "f a \<in> f ` set xs")
    case True
    then show ?thesis using head by auto
  next
    case False
    then have "\<forall>x\<in>set xs. filter (\<lambda>y. f y = f x) (a # xs) = filter (\<lambda>y. f y = f x) xs"
      by auto
    then show ?thesis using False head Cons.IH by auto
  qed
qed

lemma nunique_eq_length:
  assumes "\<not> isnull_any (map f rs)"
  shows "nunique (map f rs) = length rs \<longleftrightarrow> distinct (map f rs)"
proof -
  have m: "List.map_filter (\<lambda>c. c) (map f rs) = map the (map f rs)"
    using assms by (simp add: isnull_any_def map_filter_no_null)
  have inj: "inj_on the (set (map f rs))"
  proof (rule inj_onI)
    fix x y
    assume x: "x \<in> set (map f rs)" and y: "y \<in> set (map f rs)" and e: "the x = the y"
    from x y assms have "x \<noteq> None" and "y \<noteq> None"
      unfolding isnull_any_def by metis+
    with e show "x = y" by (metis option.collapse)
  qed
  have "nunique (map f rs) = length rs \<longleftrightarrow> distinct (map the (map f rs))"
    unfolding nunique_def m
    by (metis length_map length_remdups_eq remdups_id_iff_distinct)
  also have "\<dots> \<longleftrightarrow> distinct (map f rs)"
    using inj distinct_map [of the "map f rs"] by blast
  finally show ?thesis .
qed

section \<open>Orders and records\<close>

text \<open>
  Claim C6. For every table that \<^verbatim>\<open>load_data\<close> returns, \<^verbatim>\<open>total_orders\<close> is at most the
  number of records, and equals it exactly when every order id occurs in exactly one
  record.
\<close>

theorem total_orders_le_records:
  assumes "load_data dt fs p = Inr df"
  shows "total_orders (calculate_kpis dt df) \<le> length (rows df) \<and>
         (total_orders (calculate_kpis dt df) = length (rows df) \<longleftrightarrow>
            (\<forall>r\<in>set (rows df). length (filter (\<lambda>r'. order_id r' = order_id r) (rows df)) = 1))"
proof -
  have v: "validate dt df = Inr df" using assms by (rule load_data_Inr(2))
  have b: "\<not> isnull_any (map order_id (rows df))" using v by (rule validate_Inr(4))
  have "total_orders (calculate_kpis dt df) \<le> length (rows df)"
    using nunique_le [of "map order_id (rows df)"] by (simp add: calculate_kpis_def)
  moreover have "total_orders (calculate_kpis dt df) = length (rows df) \<longleftrightarrow>
      distinct (map order_id (rows df))"
    using nunique_eq_length [OF b] by (simp add: calculate_kpis_def)
  ultimately show ?thesis
    using distinct_map_once [of order_id "rows df"] by simp
qed

text \<open>In the example order A has two records, so the orders are fewer than the records.\<close>

theorem total_orders_le_records_witness:
  "load_data int64 example_fs DATA_FILE_PATH = Inr example_table \<and>
   total_orders (calculate_kpis int64 example_table) < length (rows example_table) \<and>
   length (filter (\<lambda>r'. order_id r' = Some ''A'') (rows example_table)) = 2"
proof -
  have "length (filter (\<lambda>r'. order_id r' = Some ''A'') (rows example_table)) = 2"
    by (simp add: example_table_def example_rows_def)
  moreover have "\<not> (\<forall>r\<in>set (rows example_table).
      length (filter (\<lambda>r'. order_id r' = order_id r) (rows example_table)) = 1)"
    by (simp add: example_table_def example_rows_def)
  ultimately show ?thesis
    using total_orders_le_records [OF example_table_loads] example_table_loads
    by (metis le_neq_implies_less)
qed

section \<open>KPIs\<close>

lemma series_sum_all:
  assumes "\<not> isnull_any (map total_amount rs)"
  shows "series_sum dt (map total_amount rs) =
         (if rs = [] then 0 else sum_of dt (map (\<lambda>r. the (total_amount r)) rs))"
proof -
  have "List.map_filter (\<lambda>c. c) (map total_amount rs) = map (\<lambda>r. the (total_amount r)) rs"
    using assms by (simp add: isnull_any_def map_filter_no_null comp_def)
  then show ?thesis
    by (cases rs) (simp_all add: series_sum_def)
qed

lemma sum_list_int64: "(sum_list ws :: 64 word) = word_of_int (\<Sum>w\<leftarrow>ws. sint w)"
  by (induction ws) simp_all

lemma sint_sum_list_int64:
  assumes "0 \<le> (\<Sum>w\<leftarrow>ws. sint w)" and "(\<Sum>w\<leftarrow>ws. sint w) < 2 ^ 63"
  shows "sint (sum_list ws :: 64 word) = (\<Sum>w\<leftarrow>ws. sint w)"
proof -
  have "- (2 ^ 63) \<le> (\<Sum>w\<leftarrow>ws. sint w)"
    using assms(1) by (rule order_trans [rotated]) simp
  then have "signed_take_bit 63 (\<Sum>w\<leftarrow>ws. sint w) = (\<Sum>w\<leftarrow>ws. sint w)"
    using assms(2) by (simp add: signed_take_bit_int_eq_self)
  then show ?thesis
    unfolding sum_list_int64 by (simp add: sint_sbintrunc')
qed

lemma positive_amounts_int64:
  assumes "validate int64 df = Inr df"
  shows "0 \<le> (\<Sum>r\<leftarrow>rows df. sint (the (total_amount r)))"
proof -
  have n: "\<not> isnull_any (map total_amount (rows df))" using assms by (rule validate_Inr(3))
  have p: "\<not> le_any int64 (map total_amount (rows df)) 0" using assms by (rule validate_Inr(5))
  have "0 \<le> sint (the (total_amount r))" if "r \<in> set (rows df)" for r
  proof -
    from n that obtain v where v: "total_amount r = Some v"
      by (cases "total_amount r") (auto simp: isnull_any_def image_iff)
    with p that have "\<not> sint v \<le> 0"
      by (auto simp: le_any_def list_ex_iff int64_def)
    with v show ?thesis by simp
  qed
  then show ?thesis by (intro sum_list_nonneg) auto
qed

text \<open>
  Claim C1, as stated, fails: pandas reads a column of integers as \<^verbatim>\<open>int64\<close>, and the sum
  of such a column wraps around. The two amounts below add up to \<open>2 ^ 63\<close>; the file
  loads, and \<^verbatim>\<open>total_sales\<close> is \<open>- 2 ^ 63\<close>.
\<close>

theorem total_sales_overflow_counterexample:
  "load_data int64 [DATA_FILE_PATH \<mapsto> Csv overflow_table] DATA_FILE_PATH = Inr overflow_table \<and>
   map total_amount (rows overflow_table) = [Some 9223372036854775807, Some 1] \<and>
   sint (9223372036854775807 :: 64 word) + sint (1 :: 64 word) = 9223372036854775808 \<and>
   sint (total_sales (calculate_kpis int64 overflow_table)) = - 9223372036854775808"
proof -
  have "load_data int64 [DATA_FILE_PATH \<mapsto> Csv overflow_table] DATA_FILE_PATH = Inr overflow_table"
    by (simp add: load_data_def handle_exn_def load_data_try_def validate_def overflow_table_def
      required_columns_def isnull_any_def le_any_def lt_any_def unique_def isin_def
      valid_categories_def valid_regions_def int64_def parsed_def na_row_def na_cell_def
      na_values_def)
  moreover have "map total_amount (rows overflow_table) = [Some 9223372036854775807, Some 1]"
    by (simp add: overflow_table_def)
  moreover have "sint (9223372036854775807 :: 64 word) + sint (1 :: 64 word) = 9223372036854775808"
    by simp
  moreover have "sint (total_sales (calculate_kpis int64 overflow_table)) = - 9223372036854775808"
    by (simp add: calculate_kpis_def overflow_table_def series_sum_def int64_def
        List.map_filter_simps)
  ultimately show ?thesis by (intro conjI)
qed

text \<open>
  Claim C1, amended. On every table that \<^verbatim>\<open>load_data\<close> returns, no record lacks its amount
  or its order id, \<^verbatim>\<open>total_orders\<close> is the number of distinct \<^verbatim>\<open>order_id\<close> values, not the
  number of records, and \<^verbatim>\<open>total_sales\<close> is the sum that the dtype of the column takes of
  the amounts of all records. For a column of integers, \<^verbatim>\<open>int64\<close>, that sum is the
  arithmetic sum wrapped around at 64 bits, and so the arithmetic sum itself when this
  is less than \<open>2 ^ 63\<close>.
\<close>

theorem total_sales_machine_sum:
  "(\<forall>df. load_data dt fs p = Inr df \<longrightarrow>
      (\<forall>r\<in>set (rows df). total_amount r \<noteq> None \<and> order_id r \<noteq> None) \<and>
      total_orders (calculate_kpis dt df) = card ((\<lambda>r. the (order_id r)) ` set (rows df)) \<and>
      total_sales (calculate_kpis dt df) =
        (if rows df = [] then 0 else sum_of dt (map (\<lambda>r. the (total_amount r)) (rows df)))) \<and>
   (\<forall>df. load_data int64 gs q = Inr df \<longrightarrow>
      total_sales (calculate_kpis int64 df) =
        word_of_int (\<Sum>r\<leftarrow>rows df. sint (the (total_amount r))) \<and>
      ((\<Sum>r\<leftarrow>rows df. sint (the (total_amount r))) < 2 ^ 63 \<longrightarrow>
         sint (total_sales (calculate_kpis int64 df)) =
           (\<Sum>r\<leftarrow>rows df. sint (the (total_amount r)))))"
proof (intro conjI allI impI)
  fix df assume l: "load_data dt fs p = Inr df"
  have v: "validate dt df = Inr df" using l by (rule load_data_Inr(2))
  have a: "\<not> isnull_any (map total_amount (rows df))" using v by (rule validate_Inr(3))
  have b: "\<not> isnull_any (map order_id (rows df))" using v by (rule validate_Inr(4))
  show "\<forall>r\<in>set (rows df). total_amount r \<noteq> None \<and> order_id r \<noteq> None"
    using a b by (force simp: isnull_any_def)
  show "total_orders (calculate_kpis dt df) = card ((\<lambda>r. the (order_id r)) ` set (rows df))"
    using b by (simp add: calculate_kpis_def nunique_no_null)
  show "total_sales (calculate_kpis dt df) =
      (if rows df = [] then 0 else sum_of dt (map (\<lambda>r. the (total_amount r)) (rows df)))"
    using series_sum_all [OF a] by (simp add: calculate_kpis_def)
next
  fix df assume l: "load_data int64 gs q = Inr df"
  have v: "validate int64 df = Inr df" using l by (rule load_data_Inr(2))
  have a: "\<not> isnull_any (map total_amount (rows df))" using v by (rule validate_Inr(3))
  have t: "total_sales (calculate_kpis int64 df) = sum_list (map (\<lambda>r. the (total_amount r)) (rows df))"
    using series_sum_all [OF a, of int64]
    by (cases "rows df") (simp_all add: calculate_kpis_def int64_def)
  show "total_sales (calculate_kpis int64 df) =
      word_of_int (\<Sum>r\<leftarrow>rows df. sint (the (total_amount r)))"
    unfolding t sum_list_int64 by (simp add: comp_def)
  {
    assume u: "(\<Sum>r\<leftarrow>rows df. sint (the (total_amount r))) < 2 ^ 63"
    have "sint (sum_list (map (\<lambda>r. the (total_amount r)) (rows df))) =
        (\<Sum>w\<leftarrow>map (\<lambda>r. the (total_amount r)) (rows df). sint w)"
      using positive_amounts_int64 [OF v] u
      by (intro sint_sum_list_int64) (simp_all add: comp_def)
    then show "sint (total_sales (calculate_kpis int64 df)) =
        (\<Sum>r\<leftarrow>rows df. sint (the (total_amount r)))"
      unfolding t by (simp add: comp_def)
  }
qed

text \<open>The spec's example: three records, sales 22, two orders.\<close>

theorem total_sales_machine_sum_witness:
  "load_data int64 example_fs DATA_FILE_PATH = Inr example_table \<and>
   length (rows example_table) = 3 \<and>
   sint (total_sales (calculate_kpis int64 example_table)) = 22 \<and>
   total_orders (calculate_kpis int64 example_table) = 2"
proof -
  note t = total_sales_machine_sum [where dt = int64 and fs = example_fs and p = DATA_FILE_PATH
      and gs = example_fs and q = DATA_FILE_PATH]
  have s: "(\<Sum>r\<leftarrow>rows example_table. sint (the (total_amount r))) = 22"
    by (simp add: example_table_def example_rows_def)
  have c: "card ((\<lambda>r. the (order_id r)) ` set (rows example_table)) = 2"
    by (simp add: example_table_def example_rows_def)
  from t example_table_loads have
    "total_orders (calculate_kpis int64 example_table) =
       card ((\<lambda>r. the (order_id r)) ` set (rows example_table))"
    by blast
  with c have o: "total_orders (calculate_kpis int64 example_table) = 2" by simp
  from t example_table_loads have
    "(\<Sum>r\<leftarrow>rows example_table. sint (the (total_amount r))) < 2 ^ 63 \<longrightarrow>
       sint (total_sales (calculate_kpis int64 example_table)) =
         (\<Sum>r\<leftarrow>rows example_table. sint (the (total_amount r)))"
    by blast
  with s have "sint (total_sales (calculate_kpis int64 example_table)) = 22" by simp
  with o example_table_loads show ?thesis
    by (simp add: example_table_def example_rows_def)
qed

section \<open>What a render shows\<close>

lemma main_success:
  assumes "load_data_cached dt c fs DATA_FILE_PATH = (Inr df, c')"
  shows "fst (main dt c fs) =
     [(Page, Title ''ShopSmart Sales Dashboard''),
      (Col1, Metric ''Total Sales'' (Currency (total_sales (calculate_kpis dt df)))),
      (Col2, Metric ''Total Orders'' (Grouped (total_orders (calculate_kpis dt df)))),
      (Page, PlotlyChart (create_sales_trend_chart dt df)),
      (Col3, PlotlyChart (create_category_chart dt df))]"
  using assms by (simp add: main_def Let_def)

lemma main_success_counts:
  assumes "load_data_cached dt c fs DATA_FILE_PATH = (Inr df, c')"
  shows "length (filter is_metric (fst (main dt c fs))) = 2 \<and>
         length (filter is_chart (fst (main dt c fs))) = 2 \<and>
         Col4 \<notin> fst ` set (fst (main dt c fs))"
  unfolding main_success [OF assms] by simp

text \<open>
  Claim C8. A successful render shows the two KPI cards and two charts, the sales trend
  and the sales by category. The module's docstring lists a third, the sales by region,
  and \<^verbatim>\<open>main\<close> makes a column for it (\<open>Col4\<close>), which stays empty.
\<close>

theorem main_renders_two_charts:
  "load_data_cached int64 Map.empty example_fs DATA_FILE_PATH =
     (Inr example_table, [DATA_FILE_PATH \<mapsto> example_table]) \<and>
   map fst (fst (main int64 Map.empty example_fs)) = [Page, Col1, Col2, Page, Col3] \<and>
   length (filter is_metric (fst (main int64 Map.empty example_fs))) = 2 \<and>
   length (filter is_chart (fst (main int64 Map.empty example_fs))) = 2 \<and>
   map fig_title (charts (fst (main int64 Map.empty example_fs))) =
     [''Sales Trend Over Time'', ''Sales by Product Category'']"
proof -
  have l: "load_data_cached int64 Map.empty example_fs DATA_FILE_PATH =
      (Inr example_table, [DATA_FILE_PATH \<mapsto> example_table])"
    by (simp add: load_data_cached_def example_table_loads)
  show ?thesis
    unfolding main_success [OF l]
    using l by (simp add: charts_def List.map_filter_simps create_sales_trend_chart_def create_category_chart_def)
qed

section \<open>The order of the checks\<close>

lemma isin_image: "isin vs c \<longleftrightarrow> c \<in> Some ` vs"
  by (cases c) (auto simp: isin_def)

lemma isnull_any_iff: "isnull_any (map f rs) \<longleftrightarrow> (\<exists>r\<in>set rs. f r = None)"
  by (simp add: isnull_any_def image_iff) metis

lemma le_any_iff: "le_any dt (map f rs) b \<longleftrightarrow> (\<exists>r\<in>set rs. \<exists>v. f r = Some v \<and> key_of dt v \<le> key_of dt b)"
  by (auto simp: le_any_def list_ex_iff split: option.splits)

lemma lt_any_iff: "lt_any (map f rs) b \<longleftrightarrow> (\<exists>r\<in>set rs. \<exists>v. f r = Some v \<and> v < b)"
  by (auto simp: lt_any_def list_ex_iff split: option.splits)

lemma unique_nonempty: "length (unique xs) > 0 \<longleftrightarrow> xs \<noteq> []"
  by (simp add: unique_def)

lemma invalid_nonempty:
  "filter (\<lambda>c. \<not> isin vs c) (map f rs) \<noteq> [] \<longleftrightarrow> (\<exists>r\<in>set rs. f r \<notin> Some ` vs)"
  by (auto simp: filter_empty_conv isin_image)

lemma join_cells_Inl: "join_cells sep cs = Inl e \<Longrightarrow> \<exists>i. e = TypeError i"
  by (auto simp: join_cells_def split: option.splits)

lemma chk_schema:
  "violated dt (Some (Csv df)) Schema \<longleftrightarrow> filter (\<lambda>col. col \<notin> set (columns (parsed df))) required_columns \<noteq> []"
  by (auto simp: filter_empty_conv)

lemma chk_null_amount: "violated dt (Some (Csv df)) NullAmount \<longleftrightarrow> isnull_any (map total_amount (rows (parsed df)))"
  by (simp add: isnull_any_iff)

lemma chk_null_order: "violated dt (Some (Csv df)) NullOrderId \<longleftrightarrow> isnull_any (map order_id (rows (parsed df)))"
  by (simp add: isnull_any_iff)

lemma chk_positive: "violated dt (Some (Csv df)) PositiveAmount \<longleftrightarrow> le_any dt (map total_amount (rows (parsed df))) 0"
  by (simp add: le_any_iff)

lemma chk_quantity: "violated dt (Some (Csv df)) QuantityMin \<longleftrightarrow> lt_any (map quantity (rows (parsed df))) 1"
  by (simp add: lt_any_iff)

lemma chk_category:
  "violated dt (Some (Csv df)) CategoryEnum \<longleftrightarrow>
   0 < length (unique (filter (\<lambda>c. \<not> isin valid_categories c) (map category (rows (parsed df)))))"
  by (simp add: unique_def invalid_nonempty)

lemma chk_region:
  "violated dt (Some (Csv df)) RegionEnum \<longleftrightarrow>
   0 < length (unique (filter (\<lambda>c. \<not> isin valid_regions c) (map region (rows (parsed df)))))"
  by (simp add: unique_def invalid_nonempty)

lemmas chk_iffs = chk_schema chk_null_amount chk_null_order chk_positive chk_quantity chk_category
  chk_region

lemma handle_exn_simps:
  "handle_exn (Inr df) = Inr df"
  "handle_exn (Inl (ValueError m)) = Inl (DataValidationError m)"
  "handle_exn (Inl (FileNotFoundError m)) = Inl (DataLoadingError m)"
  by (simp_all add: handle_exn_def)

lemma handle_exn_join:
  "handle_exn (case join_cells '', '' (unique (filter (\<lambda>c. \<not> isin vs c) cells)) of
              Inl e \<Rightarrow> Inl e
            | Inr s \<Rightarrow> Inl (ValueError (pre @ s)))
   = Inl (outside vs pre cells)"
proof (cases "join_cells '', '' (unique (filter (\<lambda>c. \<not> isin vs c) cells))")
  case (Inl e)
  then obtain i where "e = TypeError i" using join_cells_Inl by blast
  with Inl show ?thesis by (simp add: handle_exn_def outside_def)
next
  case (Inr s)
  then show ?thesis by (simp add: handle_exn_def outside_def)
qed

lemma validate_schema:
  assumes "violated dt (Some (Csv df)) Schema"
  shows "validate dt (parsed df) = Inl (ValueError (''CSV is missing required columns: '' @
       join '', '' (filter (\<lambda>col. col \<notin> set (columns df)) required_columns)))"
  using assms unfolding chk_iffs validate_def Let_def by simp

lemma validate_null_amount:
  assumes "\<not> violated dt (Some (Csv df)) Schema" "violated dt (Some (Csv df)) NullAmount"
  shows "validate dt (parsed df) = Inl (ValueError ''Data contains missing transaction amounts'')"
  using assms unfolding chk_iffs validate_def Let_def by simp

lemma validate_null_order:
  assumes "\<not> violated dt (Some (Csv df)) Schema" "\<not> violated dt (Some (Csv df)) NullAmount"
   "violated dt (Some (Csv df)) NullOrderId"
  shows "validate dt (parsed df) = Inl (ValueError ''Data contains missing order IDs'')"
  using assms unfolding chk_iffs validate_def Let_def by simp

lemma validate_positive:
  assumes "\<not> violated dt (Some (Csv df)) Schema" "\<not> violated dt (Some (Csv df)) NullAmount"
   "\<not> violated dt (Some (Csv df)) NullOrderId" "violated dt (Some (Csv df)) PositiveAmount"
  shows "validate dt (parsed df) = Inl (ValueError ''Data contains non-positive transaction amounts'')"
  using assms unfolding chk_iffs validate_def Let_def by simp

lemma validate_quantity:
  assumes "\<not> violated dt (Some (Csv df)) Schema" "\<not> violated dt (Some (Csv df)) NullAmount"
   "\<not> violated dt (Some (Csv df)) NullOrderId" "\<not> violated dt (Some (Csv df)) PositiveAmount"
   "violated dt (Some (Csv df)) QuantityMin"
  shows "validate dt (parsed df) = Inl (ValueError ''Data contains invalid quantities (must be >= 1)'')"
  using assms unfolding chk_iffs validate_def Let_def by simp

lemma validate_category:
  assumes "\<not> violated dt (Some (Csv df)) Schema" "\<not> violated dt (Some (Csv df)) NullAmount"
   "\<not> violated dt (Some (Csv df)) NullOrderId" "\<not> violated dt (Some (Csv df)) PositiveAmount"
   "\<not> violated dt (Some (Csv df)) QuantityMin" "violated dt (Some (Csv df)) CategoryEnum"
  shows "validate dt (parsed df) =
     (case join_cells '', '' (unique (filter (\<lambda>c. \<not> isin valid_categories c) (map category (rows (parsed df))))) of
        Inl e \<Rightarrow> Inl e
      | Inr s \<Rightarrow> Inl (ValueError (''Data contains invalid categories: '' @ s)))"
  using assms unfolding chk_iffs validate_def Let_def by simp

lemma validate_region:
  assumes "\<not> violated dt (Some (Csv df)) Schema" "\<not> violated dt (Some (Csv df)) NullAmount"
   "\<not> violated dt (Some (Csv df)) NullOrderId" "\<not> violated dt (Some (Csv df)) PositiveAmount"
   "\<not> violated dt (Some (Csv df)) QuantityMin" "\<not> violated dt (Some (Csv df)) CategoryEnum"
   "violated dt (Some (Csv df)) RegionEnum"
  shows "validate dt (parsed df) =
     (case join_cells '', '' (unique (filter (\<lambda>c. \<not> isin valid_regions c) (map region (rows (parsed df))))) of
        Inl e \<Rightarrow> Inl e
      | Inr s \<Rightarrow> Inl (ValueError (''Data contains invalid regions: '' @ s)))"
  using assms unfolding chk_iffs validate_def Let_def by simp

lemma validate_pass:
  assumes "\<not> violated dt (Some (Csv df)) Schema" "\<not> violated dt (Some (Csv df)) NullAmount"
   "\<not> violated dt (Some (Csv df)) NullOrderId" "\<not> violated dt (Some (Csv df)) PositiveAmount"
   "\<not> violated dt (Some (Csv df)) QuantityMin" "\<not> violated dt (Some (Csv df)) CategoryEnum"
   "\<not> violated dt (Some (Csv df)) RegionEnum"
  shows "validate dt (parsed df) = Inr (parsed df)"
  using assms unfolding chk_iffs validate_def Let_def by simp


lemma load_data_Some:
  assumes "fs p = Some (Csv df)"
  shows "load_data dt fs p =
     handle_exn (if ''date'' \<in> set (columns df) then validate dt (parsed df)
              else Inl (ValueError parse_dates_missing))"
  using assms by (simp add: load_data_def load_data_try_def)

lemma date_required: "\<not> violated dt (Some (Csv df)) Schema \<Longrightarrow> ''date'' \<in> set (columns df)"
  by (simp add: required_columns_def)

lemma load_data_by_checks:
  "load_data dt fs p =
     (case first_violated dt (fs p) of
        Some c \<Rightarrow> Inl (failure p (fs p) c)
      | None \<Rightarrow>
          (case fs p of
             Some (Csv df) \<Rightarrow> Inr (parsed df)
           | Some (Unreadable e) \<Rightarrow> handle_exn (Inl e)
           | None \<Rightarrow> Inl (DataLoadingError (not_found_message p))))"
proof (cases "fs p")
  case None
  then show ?thesis
    by (simp add: first_violated_def check_order_def load_data_def load_data_try_def
        handle_exn_def)
next
  case (Some f)
  show ?thesis
  proof (cases f)
    case (Unreadable e)
    with Some show ?thesis
      by (simp add: first_violated_def check_order_def load_data_def load_data_try_def)
  next
    case (Csv df)
    with Some have S: "fs p = Some (Csv df)" by simp
    note ld = load_data_Some [where fs = fs and p = p and df = df and dt = dt, OF S]
    consider
        (schema) "violated dt (Some (Csv df)) Schema"
      | (null_amount) "\<not> violated dt (Some (Csv df)) Schema" "violated dt (Some (Csv df)) NullAmount"
      | (null_order) "\<not> violated dt (Some (Csv df)) Schema" "\<not> violated dt (Some (Csv df)) NullAmount"
          "violated dt (Some (Csv df)) NullOrderId"
      | (positive) "\<not> violated dt (Some (Csv df)) Schema" "\<not> violated dt (Some (Csv df)) NullAmount"
          "\<not> violated dt (Some (Csv df)) NullOrderId" "violated dt (Some (Csv df)) PositiveAmount"
      | (quantity) "\<not> violated dt (Some (Csv df)) Schema" "\<not> violated dt (Some (Csv df)) NullAmount"
          "\<not> violated dt (Some (Csv df)) NullOrderId" "\<not> violated dt (Some (Csv df)) PositiveAmount"
          "violated dt (Some (Csv df)) QuantityMin"
      | (category) "\<not> violated dt (Some (Csv df)) Schema" "\<not> violated dt (Some (Csv df)) NullAmount"
          "\<not> violated dt (Some (Csv df)) NullOrderId" "\<not> violated dt (Some (Csv df)) PositiveAmount"
          "\<not> violated dt (Some (Csv df)) QuantityMin" "violated dt (Some (Csv df)) CategoryEnum"
      | (region) "\<not> violated dt (Some (Csv df)) Schema" "\<not> violated dt (Some (Csv df)) NullAmount"
          "\<not> violated dt (Some (Csv df)) NullOrderId" "\<not> violated dt (Some (Csv df)) PositiveAmount"
          "\<not> violated dt (Some (Csv df)) QuantityMin" "\<not> violated dt (Some (Csv df)) CategoryEnum"
          "violated dt (Some (Csv df)) RegionEnum"
      | (pass) "\<not> violated dt (Some (Csv df)) Schema" "\<not> violated dt (Some (Csv df)) NullAmount"
          "\<not> violated dt (Some (Csv df)) NullOrderId" "\<not> violated dt (Some (Csv df)) PositiveAmount"
          "\<not> violated dt (Some (Csv df)) QuantityMin" "\<not> violated dt (Some (Csv df)) CategoryEnum"
          "\<not> violated dt (Some (Csv df)) RegionEnum"
      by blast
    then show ?thesis
    proof cases
      case schema
      then have f: "first_violated dt (Some (Csv df)) = Some Schema"
        unfolding first_violated_def check_order_def by simp
      have "load_data dt fs p = Inl (failure p (Some (Csv df)) Schema)"
        unfolding ld validate_schema [OF schema] by (simp add: handle_exn_simps)
      then show ?thesis unfolding S f by simp
    next
      case null_amount
      then have f: "first_violated dt (Some (Csv df)) = Some NullAmount"
        unfolding first_violated_def check_order_def by simp
      have "load_data dt fs p = Inl (failure p (Some (Csv df)) NullAmount)"
        unfolding ld validate_null_amount [OF null_amount]
        using date_required [OF null_amount(1)] by (simp add: handle_exn_simps)
      then show ?thesis unfolding S f by simp
    next
      case null_order
      then have f: "first_violated dt (Some (Csv df)) = Some NullOrderId"
        unfolding first_violated_def check_order_def by simp
      have "load_data dt fs p = Inl (failure p (Some (Csv df)) NullOrderId)"
        unfolding ld validate_null_order [OF null_order]
        using date_required [OF null_order(1)] by (simp add: handle_exn_simps)
      then show ?thesis unfolding S f by simp
    next
      case positive
      then have f: "first_violated dt (Some (Csv df)) = Some PositiveAmount"
        unfolding first_violated_def check_order_def by simp
      have "load_data dt fs p = Inl (failure p (Some (Csv df)) PositiveAmount)"
        unfolding ld validate_positive [OF positive]
        using date_required [OF positive(1)] by (simp add: handle_exn_simps)
      then show ?thesis unfolding S f by simp
    next
      case quantity
      then have f: "first_violated dt (Some (Csv df)) = Some QuantityMin"
        unfolding first_violated_def check_order_def by simp
      have "load_data dt fs p = Inl (failure p (Some (Csv df)) QuantityMin)"
        unfolding ld validate_quantity [OF quantity]
        using date_required [OF quantity(1)] by (simp add: handle_exn_simps)
      then show ?thesis unfolding S f by simp
    next
      case category
      then have f: "first_violated dt (Some (Csv df)) = Some CategoryEnum"
        unfolding first_violated_def check_order_def by simp
      have "load_data dt fs p = Inl (failure p (Some (Csv df)) CategoryEnum)"
        unfolding ld validate_category [OF category]
        using date_required [OF category(1)] handle_exn_join [where vs = valid_categories and cells = "map category (rows (parsed df))" and pre = "''Data contains invalid categories: ''"]
        by simp
      then show ?thesis unfolding S f by simp
    next
      case region
      then have f: "first_violated dt (Some (Csv df)) = Some RegionEnum"
        unfolding first_violated_def check_order_def by simp
      have "load_data dt fs p = Inl (failure p (Some (Csv df)) RegionEnum)"
        unfolding ld validate_region [OF region]
        using date_required [OF region(1)] handle_exn_join [where vs = valid_regions and cells = "map region (rows (parsed df))" and pre = "''Data contains invalid regions: ''"]
        by simp
      then show ?thesis unfolding S f by simp
    next
      case pass
      then have f: "first_violated dt (Some (Csv df)) = None"
        unfolding first_violated_def check_order_def by simp
      have "load_data dt fs p = Inr (parsed df)"
        unfolding ld validate_pass [OF pass]
        using date_required [OF pass(1)] by (simp add: handle_exn_simps)
      then show ?thesis unfolding S f by simp
    qed
  qed
qed

text \<open>
  Claim C2. \<^verbatim>\<open>load_data\<close> fails with the failure of the first check, in the order
  existence, missing columns, null \<^verbatim>\<open>total_amount\<close>, null \<^verbatim>\<open>order_id\<close>,
  \<^verbatim>\<open>total_amount > 0\<close>, \<^verbatim>\<open>quantity >= 1\<close>, category enum, region enum, that the input
  violates, whatever the later checks would find; when no check is violated it returns
  the table as read, or, for a file that cannot be read, stops with the error of the
  reading.
\<close>

theorem load_data_first_violated:
  "load_data dt fs filepath =
     (case first_violated dt (fs filepath) of
        Some c \<Rightarrow> Inl (failure filepath (fs filepath) c)
      | None \<Rightarrow>
          (case fs filepath of
             Some (Csv df) \<Rightarrow> Inr (parsed df)
           | Some (Unreadable e) \<Rightarrow> handle_exn (Inl e)
           | None \<Rightarrow> Inl (DataLoadingError (not_found_message filepath))))"
  by (rule load_data_by_checks)

text \<open>The file \<open>bad_table\<close> violates the order id, quantity, category and region checks;
  the failure is that of the order id check, the first of them.\<close>

theorem load_data_first_violated_witness:
  "first_violated int64 ([DATA_FILE_PATH \<mapsto> Csv bad_table] DATA_FILE_PATH) = Some NullOrderId \<and>
   load_data int64 [DATA_FILE_PATH \<mapsto> Csv bad_table] DATA_FILE_PATH =
     Inl (DataValidationError ''Data contains missing order IDs'')"
  using load_data_first_violated [of int64 "[DATA_FILE_PATH \<mapsto> Csv bad_table]" DATA_FILE_PATH]
  by (simp add: first_violated_def check_order_def bad_table_def required_columns_def
      parsed_def na_row_def na_cell_def na_values_def)

text \<open>A file of 0 bytes exists and cannot be read: none of the eight checks is reached, and
  the render stops with the error of \<^verbatim>\<open>read_csv\<close>.\<close>

lemma load_data_empty_file:
  "load_data dt [DATA_FILE_PATH \<mapsto> empty_file] DATA_FILE_PATH =
     Inl (DataValidationError ''No columns to parse from file'')"
  by (simp add: load_data_def load_data_try_def handle_exn_def empty_file_def)

section \<open>The empty table\<close>

text \<open>
  Claim C3. A file with all eight columns and no record loads without an error; its KPIs
  are 0 sales and 0 orders, and both aggregates are empty.
\<close>

theorem empty_table_ok:
  assumes "set required_columns \<subseteq> set cols"
    and "fs p = Some (Csv \<lparr> columns = cols, rows = [] \<rparr>)"
  shows "load_data dt fs p = Inr \<lparr> columns = cols, rows = [] \<rparr> \<and>
         calculate_kpis dt \<lparr> columns = cols, rows = [] \<rparr> = \<lparr> total_sales = 0, total_orders = 0 \<rparr> \<and>
         daily_sales dt \<lparr> columns = cols, rows = [] \<rparr> = [] \<and>
         category_sales dt \<lparr> columns = cols, rows = [] \<rparr> = []"
proof -
  let ?t = "\<lparr> columns = cols, rows = [] \<rparr> :: 'a dataframe"
  have "filter (\<lambda>col. col \<notin> set cols) required_columns = []"
    using assms(1) by (auto simp: filter_empty_conv)
  then have v: "validate dt ?t = Inr ?t"
    by (simp add: validate_def isnull_any_def le_any_def lt_any_def unique_def)
  have "''date'' \<in> set cols"
    using assms(1) by (auto simp: required_columns_def)
  then have r: "read_csv (Csv ?t) = Inr ?t"
    by (simp add: parsed_def)
  have "load_data_try dt fs p = Inr ?t"
    unfolding load_data_try_def assms(2) by (simp only: option.case r sum.case v)
  then have "load_data dt fs p = Inr ?t"
    by (simp add: load_data_def handle_exn_def)
  then show ?thesis
    by (simp add: calculate_kpis_def series_sum_def nunique_def daily_sales_def
        category_sales_def groupby_sum_def sort_values_desc_def List.map_filter_simps)
qed

theorem empty_table_ok_witness:
  "load_data int64 [DATA_FILE_PATH \<mapsto> Csv \<lparr> columns = required_columns, rows = [] \<rparr>] DATA_FILE_PATH
     = Inr \<lparr> columns = required_columns, rows = [] \<rparr> \<and>
   calculate_kpis int64 \<lparr> columns = required_columns, rows = [] \<rparr> = \<lparr> total_sales = 0, total_orders = 0 \<rparr> \<and>
   daily_sales int64 \<lparr> columns = required_columns, rows = [] \<rparr> = [] \<and>
   category_sales int64 \<lparr> columns = required_columns, rows = [] \<rparr> = []"
  using empty_table_ok [where cols = required_columns and dt = int64 and p = DATA_FILE_PATH
      and fs = "[DATA_FILE_PATH \<mapsto> Csv \<lparr> columns = required_columns, rows = [] \<rparr>]"]
  by simp

section \<open>Fields the loader does not check\<close>

lemma example_table_loads_upd:
  "load_data int64 (example_fs(DATA_FILE_PATH \<mapsto> Csv example_table)) DATA_FILE_PATH = Inr example_table"
  using example_table_loads by (simp add: example_fs_def)

lemma violated_unit_price:
  "violated dt (Some (Csv (df\<lparr>rows := map (\<lambda>r. r\<lparr>unit_price := u r\<rparr>) (rows df)\<rparr>))) c =
   violated dt (Some (Csv df)) c"
  by (cases c) (simp_all add: rows_parsed na_row_def)

lemma failure_unit_price:
  "failure p (Some (Csv (df\<lparr>rows := map (\<lambda>r. r\<lparr>unit_price := u r\<rparr>) (rows df)\<rparr>))) c =
   failure p (Some (Csv df)) c"
  by (cases c) (simp_all add: rows_parsed na_row_def comp_def)

lemma first_violated_unit_price:
  "first_violated dt (Some (Csv (df\<lparr>rows := map (\<lambda>r. r\<lparr>unit_price := u r\<rparr>) (rows df)\<rparr>))) =
   first_violated dt (Some (Csv df))"
  unfolding first_violated_def by (rule find_cong) (simp_all add: violated_unit_price)

text \<open>
  Claim C9. \<^verbatim>\<open>load_data\<close> never looks at \<^verbatim>\<open>unit_price\<close>: whatever the unit prices of a
  file are replaced by (zero, negative, missing), the load fails with the same failure
  or succeeds with the table as it is in the file.
\<close>

theorem unit_price_not_validated:
  "load_data dt (fs(p \<mapsto> Csv (df\<lparr>rows := map (\<lambda>r. r\<lparr>unit_price := u r\<rparr>) (rows df)\<rparr>))) p =
     (case load_data dt (fs(p \<mapsto> Csv df)) p of
        Inl h \<Rightarrow> Inl h
      | Inr d \<Rightarrow> Inr (parsed (df\<lparr>rows := map (\<lambda>r. r\<lparr>unit_price := u r\<rparr>) (rows df)\<rparr>)))"
  unfolding load_data_by_checks
  by (simp add: first_violated_unit_price failure_unit_price split: option.splits)

theorem unit_price_not_validated_witness:
  "load_data int64 (example_fs(DATA_FILE_PATH \<mapsto> Csv odd_price_table)) DATA_FILE_PATH = Inr odd_price_table \<and>
   map unit_price (rows odd_price_table) = [Some 0, Some (- 1), None]"
proof -
  have "map unit_price (rows odd_price_table) = [Some 0, Some (- 1), None]"
    by (simp add: odd_price_table_def odd_price_def example_table_def example_rows_def)
  moreover have "parsed odd_price_table = odd_price_table"
    by (simp add: parsed_def odd_price_table_def example_table_def example_rows_def na_row_def
        na_cell_def na_values_def)
  ultimately show ?thesis
    using unit_price_not_validated [where fs = example_fs and p = DATA_FILE_PATH
          and df = example_table and u = odd_price and dt = int64]
      example_table_loads_upd
    by (simp add: odd_price_table_def)
qed

section \<open>The order id check\<close>













section \<open>The cache of the loader\<close>

lemma cached_hit: "c p = Some df \<Longrightarrow> load_data_cached dt c fs p = (Inr df, c)"
  by (simp add: load_data_cached_def)

lemma cached_miss: "c p = None \<Longrightarrow> fst (load_data_cached dt c fs p) = load_data dt fs p"
  by (simp add: load_data_cached_def split: sum.splits)

lemma cached_stores: "load_data_cached dt c fs p = (Inr df, c') \<Longrightarrow> c' p = Some df"
  by (auto simp: load_data_cached_def split: option.splits sum.splits)

lemma cached_failure: "load_data_cached dt c fs p = (Inl h, c') \<Longrightarrow> c' = c"
  by (auto simp: load_data_cached_def split: option.splits sum.splits)

lemma load_seq_hit: "c p = Some df \<Longrightarrow> load_seq dt c fss p = replicate (length fss) (Inr df)"
  by (induction fss) (simp_all add: cached_hit)

lemma changed_table_loads: "load_data int64 changed_fs DATA_FILE_PATH = Inr changed_table"
  by (simp add: load_data_def handle_exn_def load_data_try_def validate_def changed_fs_def
      changed_table_def example_rows_def required_columns_def isnull_any_def le_any_def
      lt_any_def unique_def isin_def valid_categories_def valid_regions_def int64_def
      parsed_def na_row_def na_cell_def na_values_def)

lemma bad_table_fails:
  "load_data int64 [DATA_FILE_PATH \<mapsto> Csv bad_table] DATA_FILE_PATH =
     Inl (DataValidationError ''Data contains missing order IDs'')"
  by (simp add: load_data_def handle_exn_def load_data_try_def validate_def bad_table_def
      required_columns_def isnull_any_def parsed_def na_row_def na_cell_def na_values_def)

text \<open>
  Claim C7, as the spec states it, fails: the file is loaded, then edited, then loaded
  again with the same path, and the second call returns the table of the first.
\<close>

theorem cache_stale_counterexample:
  "load_seq int64 Map.empty [example_fs, changed_fs] DATA_FILE_PATH =
     [Inr example_table, Inr example_table] \<and>
   load_data int64 changed_fs DATA_FILE_PATH = Inr changed_table \<and>
   changed_table \<noteq> example_table"
proof -
  have "load_data_cached int64 Map.empty example_fs DATA_FILE_PATH =
      (Inr example_table, [DATA_FILE_PATH \<mapsto> example_table])"
    by (simp add: load_data_cached_def example_table_loads)
  then have "load_seq int64 Map.empty [example_fs, changed_fs] DATA_FILE_PATH =
      [Inr example_table, Inr example_table]"
    by (simp add: load_data_cached_def)
  moreover have "changed_table \<noteq> example_table"
    by (simp add: changed_table_def example_table_def example_rows_def)
  ultimately show ?thesis using changed_table_loads by simp
qed

text \<open>
  Claim C7, amended. The cache is keyed by the file path alone. A call for a path with a
  cached table returns that table and leaves the cache as it is; a call for a path with
  no cached table returns what \<^verbatim>\<open>load_data\<close> computes from the file as it is. A call
  that fails leaves the cache as it was: a failed load caches nothing. A call that
  returns a table leaves the cache with that table for the path and nothing else
  changed, and every later call with the same path returns that table, whatever the file
  has become.
\<close>

theorem cache_keyed_by_path:
  "(\<forall>df. c p = Some df \<longrightarrow> load_data_cached dt c fs p = (Inr df, c)) \<and>
   (c p = None \<longrightarrow> fst (load_data_cached dt c fs p) = load_data dt fs p) \<and>
   (\<forall>h c'. load_data_cached dt c fs p = (Inl h, c') \<longrightarrow> c' = c) \<and>
   (\<forall>df c'. load_data_cached dt c fs p = (Inr df, c') \<longrightarrow>
      c' = (if c p = None then c(p \<mapsto> df) else c) \<and>
      load_seq dt c' fss p = replicate (length fss) (Inr df))"
proof (intro conjI allI impI)
  fix df assume "c p = Some df"
  then show "load_data_cached dt c fs p = (Inr df, c)" by (rule cached_hit)
next
  assume "c p = None"
  then show "fst (load_data_cached dt c fs p) = load_data dt fs p" by (rule cached_miss)
next
  fix h c' assume "load_data_cached dt c fs p = (Inl h, c')"
  then show "c' = c" by (rule cached_failure)
next
  fix df c' assume "load_data_cached dt c fs p = (Inr df, c')"
  then show "c' = (if c p = None then c(p \<mapsto> df) else c)"
    by (auto simp: load_data_cached_def split: option.splits sum.splits)
next
  fix df c' assume "load_data_cached dt c fs p = (Inr df, c')"
  then have "c' p = Some df" by (rule cached_stores)
  then show "load_seq dt c' fss p = replicate (length fss) (Inr df)" by (rule load_seq_hit)
qed

text \<open>A load that fails, then a load of the example, then a load after the edit: the
  failure leaves nothing behind, the second call reads the file, the third returns the
  table of the second.\<close>

theorem cache_keyed_by_path_witness:
  "load_data_cached int64 Map.empty [DATA_FILE_PATH \<mapsto> Csv bad_table] DATA_FILE_PATH =
     (Inl (DataValidationError ''Data contains missing order IDs''), Map.empty) \<and>
   fst (load_data_cached int64 Map.empty example_fs DATA_FILE_PATH) = Inr example_table \<and>
   load_seq int64 [DATA_FILE_PATH \<mapsto> example_table] [changed_fs, example_fs] DATA_FILE_PATH =
     [Inr example_table, Inr example_table]"
proof -
  have f: "load_data_cached int64 Map.empty [DATA_FILE_PATH \<mapsto> Csv bad_table] DATA_FILE_PATH =
      (Inl (DataValidationError ''Data contains missing order IDs''),
       snd (load_data_cached int64 Map.empty [DATA_FILE_PATH \<mapsto> Csv bad_table] DATA_FILE_PATH))"
    by (simp add: load_data_cached_def bad_table_fails)
  have s: "load_data_cached int64 Map.empty example_fs DATA_FILE_PATH =
      (Inr example_table, [DATA_FILE_PATH \<mapsto> example_table])"
    by (simp add: load_data_cached_def example_table_loads)
  note t1 = cache_keyed_by_path [where c = Map.empty and p = DATA_FILE_PATH and dt = int64
      and fs = "[DATA_FILE_PATH \<mapsto> Csv bad_table]" and fss = "[]"]
  note t2 = cache_keyed_by_path [where c = Map.empty and p = DATA_FILE_PATH and dt = int64
      and fs = example_fs and fss = "[changed_fs, example_fs]"]
  from t1 have "\<forall>h c'. load_data_cached int64 Map.empty [DATA_FILE_PATH \<mapsto> Csv bad_table]
      DATA_FILE_PATH = (Inl h, c') \<longrightarrow> c' = Map.empty"
    by blast
  with f have e: "snd (load_data_cached int64 Map.empty [DATA_FILE_PATH \<mapsto> Csv bad_table]
      DATA_FILE_PATH) = Map.empty"
    by blast
  from t2 have "\<forall>df c'. load_data_cached int64 Map.empty example_fs DATA_FILE_PATH = (Inr df, c') \<longrightarrow>
      load_seq int64 c' [changed_fs, example_fs] DATA_FILE_PATH =
        replicate (length [changed_fs, example_fs]) (Inr df)"
    by blast
  with s have l: "load_seq int64 [DATA_FILE_PATH \<mapsto> example_table] [changed_fs, example_fs]
      DATA_FILE_PATH = replicate (length [changed_fs, example_fs]) (Inr example_table)"
    by blast
  have "load_data_cached int64 Map.empty [DATA_FILE_PATH \<mapsto> Csv bad_table] DATA_FILE_PATH =
     (Inl (DataValidationError ''Data contains missing order IDs''), Map.empty)"
    using f e by simp
  moreover have "fst (load_data_cached int64 Map.empty example_fs DATA_FILE_PATH) = Inr example_table"
    using s by simp
  moreover have "load_seq int64 [DATA_FILE_PATH \<mapsto> example_table] [changed_fs, example_fs]
      DATA_FILE_PATH = [Inr example_table, Inr example_table]"
    using l by (simp del: load_seq.simps)
  ultimately show ?thesis by (intro conjI)
qed

section \<open>Grouped sums\<close>

lemma int64_exact: "exact_sums int64"
  by (simp add: exact_sums_def int64_def)

lemma sum_list_non_null:
  "sum_list (List.map_filter (\<lambda>c. c) (map total_amount rs)) = (\<Sum>r\<leftarrow>rs. amount r)"
  by (induction rs) (simp_all add: amount_def List.map_filter_simps split: option.splits)

lemma series_sum_amount:
  "exact_sums dt \<Longrightarrow> series_sum dt (map total_amount rs) = (\<Sum>r\<leftarrow>rs. amount r)"
  unfolding sum_list_non_null [symmetric]
  by (simp add: series_sum_def exact_sums_def split: list.splits)

lemma group_sum_amount:
  "exact_sums dt \<Longrightarrow> group_sum dt (map total_amount rs) = (\<Sum>r\<leftarrow>rs. amount r)"
  unfolding sum_list_non_null [symmetric]
  by (simp add: group_sum_def exact_sums_def split: list.splits)

lemma group_sum_filter:
  "exact_sums dt \<Longrightarrow>
   group_sum dt (map total_amount (filter P rs)) = (\<Sum>r\<leftarrow>rs. if P r then amount r else 0)"
  by (simp add: group_sum_amount sum_list_map_filter')

lemma sum_groups:
  fixes key :: "'n::comm_monoid_add row \<Rightarrow> 'k option"
  assumes "exact_sums dt"
  shows "distinct ks \<Longrightarrow>
   (\<Sum>k\<leftarrow>ks. group_sum dt (map total_amount (filter (\<lambda>r. key r = Some k) rs))) =
   (\<Sum>r\<leftarrow>rs. if key r \<in> Some ` set ks then amount r else 0)"
proof (induction ks)
  case Nil
  show ?case by (simp add: group_sum_def List.map_filter_simps)
next
  case (Cons k ks)
  have "(\<Sum>r\<leftarrow>rs. if key r \<in> Some ` set (k # ks) then amount r else 0) =
        (\<Sum>r\<leftarrow>rs. (if key r = Some k then amount r else 0) +
                (if key r \<in> Some ` set ks then amount r else 0))"
    using Cons.prems by (intro arg_cong [where f = sum_list] map_cong refl) auto
  also have "\<dots> = (\<Sum>r\<leftarrow>rs. if key r = Some k then amount r else 0) +
                  (\<Sum>r\<leftarrow>rs. if key r \<in> Some ` set ks then amount r else 0)"
    by (rule sum_list_addf)
  finally show ?case using Cons assms by (simp add: group_sum_filter)
qed

lemma set_map_filter_key: "set (List.map_filter key rs) = {k. \<exists>r\<in>set rs. key r = Some k}"
  by (induction rs) (auto simp: List.map_filter_simps split: option.splits)

lemma groupby_sum_total:
  fixes key :: "'n::comm_monoid_add row \<Rightarrow> 'k::linorder option"
  assumes "exact_sums dt"
  shows "sum_list (map snd (groupby_sum dt key rs)) =
   series_sum dt (map total_amount (filter (\<lambda>r. key r \<noteq> None) rs))"
proof -
  let ?ks = "sort (remdups (List.map_filter key rs))"
  have d: "distinct ?ks" by simp
  have "(\<Sum>r\<leftarrow>rs. if key r \<in> Some ` set ?ks then amount r else 0) =
        (\<Sum>r\<leftarrow>rs. if key r \<noteq> None then amount r else 0)"
    by (intro arg_cong [where f = sum_list] map_cong refl) (auto simp: set_map_filter_key)
  then show ?thesis
    using sum_groups [OF assms d, of key rs] assms
    by (simp add: groupby_sum_def comp_def series_sum_amount sum_list_map_filter')
qed

lemma sort_values_desc_sum:
  fixes xs :: "('k \<times> 'n::comm_monoid_add) list"
  shows "sum_list (map snd (sort_values_desc dt xs)) = sum_list (map snd xs)"
proof -
  have "mset (sort_values_desc dt xs) = mset xs"
    by (simp add: sort_values_desc_def)
  then have "sum_mset (image_mset snd (mset (sort_values_desc dt xs))) = sum_mset (image_mset snd (mset xs))"
    by simp
  then show ?thesis by (simp only: sum_mset_sum_list mset_map [symmetric])
qed

text \<open>With exact sums no record is lost between the categories, on any table that loads:
  every record has a category.\<close>

lemma category_sales_total:
  assumes "exact_sums dt" and "load_data dt fs p = Inr df"
  shows "sum_list (map snd (category_sales dt df)) = total_sales (calculate_kpis dt df)"
proof -
  have "\<forall>r\<in>set (rows df). isin valid_categories (category r)"
    using load_data_Inr(2) [OF assms(2)] by (rule validate_Inr(7))
  then have "filter (\<lambda>r. category r \<noteq> None) (rows df) = rows df"
    by (auto simp: isin_def filter_id_conv split: option.splits)
  then show ?thesis
    using assms(1)
    by (simp add: category_sales_def sort_values_desc_sum groupby_sum_total calculate_kpis_def)
qed

text \<open>The records that the grouping by date keeps are those with a date.\<close>

lemma daily_sales_total:
  "exact_sums dt \<Longrightarrow> sum_list (map snd (daily_sales dt df)) =
   series_sum dt (map total_amount (filter (\<lambda>r. date r \<noteq> None) (rows df)))"
  by (simp add: daily_sales_def groupby_sum_total)

lemma daily_sales_total_dated:
  assumes "exact_sums dt" and "\<forall>r\<in>set (rows df). date r \<noteq> None"
  shows "sum_list (map snd (daily_sales dt df)) = total_sales (calculate_kpis dt df)"
proof -
  have "filter (\<lambda>r. date r \<noteq> None) (rows df) = rows df"
    using assms(2) by (simp add: filter_id_conv)
  then show ?thesis using assms(1) by (simp add: daily_sales_total calculate_kpis_def)
qed

lemma category_sales_example:
  "category_sales int64 example_table = [(''Electronics'', 10), (''Audio'', 7), (''Accessories'', 5)]"
  by (simp add: category_sales_def groupby_sum_def sort_values_desc_def example_table_def
      example_rows_def group_sum_def int64_def List.map_filter_simps)

text \<open>The spec's example: the sales of the two days.\<close>

lemma daily_sales_example: "daily_sales int64 example_table = [(19723, 15), (19724, 7)]"
  by (simp add: daily_sales_def groupby_sum_def example_table_def example_rows_def
      group_sum_def int64_def List.map_filter_simps)

lemma daily_sales_undated: "daily_sales int64 undated_table = [(19723, 15)]"
  by (simp add: daily_sales_def groupby_sum_def undated_table_def example_table_def
      example_rows_def group_sum_def int64_def List.map_filter_simps)

lemma category_sales_tie_example:
  "category_sales int64 tie_table = [(''Audio'', 7), (''Accessories'', 5), (''Electronics'', 5)]"
  by (simp add: category_sales_def groupby_sum_def sort_values_desc_def tie_table_def
      example_table_def example_rows_def group_sum_def int64_def List.map_filter_simps)

section \<open>Group totals and total sales\<close>

lemma undated_table_loads:
  "load_data int64 [DATA_FILE_PATH \<mapsto> Csv undated_table] DATA_FILE_PATH = Inr undated_table"
  by (simp add: load_data_def handle_exn_def load_data_try_def validate_def undated_table_def
      example_table_def example_rows_def required_columns_def isnull_any_def le_any_def
      lt_any_def unique_def isin_def valid_categories_def valid_regions_def int64_def
      parsed_def na_row_def na_cell_def na_values_def)

text \<open>
  Claim C5. With exact sums, the sums per category add up to \<^verbatim>\<open>total_sales\<close> on every
  table that \<^verbatim>\<open>load_data\<close> returns (\<open>category_sales_total\<close>), and so do the sums per date
  when no record lacks its date (\<open>daily_sales_total_dated\<close>). But \<^verbatim>\<open>load_data\<close> lets a
  record without a date through, although its docstring counts \<^verbatim>\<open>date\<close> among the
  critical fields that have no null, and the grouping by date drops such a record: on
  the table below, total sales are 22 and the sums per date add up to 15.
\<close>

theorem daily_sales_drops_undated:
  "load_data int64 [DATA_FILE_PATH \<mapsto> Csv undated_table] DATA_FILE_PATH = Inr undated_table \<and>
   total_sales (calculate_kpis int64 undated_table) = 22 \<and>
   sum_list (map snd (category_sales int64 undated_table)) = 22 \<and>
   daily_sales int64 undated_table = [(19723, 15)] \<and>
   sum_list (map snd (daily_sales int64 undated_table)) = 15"
proof -
  have t: "total_sales (calculate_kpis int64 undated_table) = 22"
    by (simp add: calculate_kpis_def undated_table_def example_table_def example_rows_def
        series_sum_def int64_def List.map_filter_simps)
  have c: "sum_list (map snd (category_sales int64 undated_table)) = 22"
    using category_sales_total [OF int64_exact undated_table_loads] t by simp
  show ?thesis using undated_table_loads t c daily_sales_undated by simp
qed

section \<open>Sales by category\<close>

lemma set_sort_values_desc [simp]: "set (sort_values_desc dt xs) = set xs"
  by (simp add: sort_values_desc_def)

lemma mset_sort_values_desc [simp]: "mset (sort_values_desc dt xs) = mset xs"
  by (simp add: sort_values_desc_def)

lemma groupby_sum_keys:
  "map fst (groupby_sum dt key rs) = sort (remdups (List.map_filter key rs))"
  by (simp add: groupby_sum_def comp_def)

lemma groupby_sum_entry:
  "(k, s) \<in> set (groupby_sum dt key rs) \<Longrightarrow>
   s = group_sum dt (map total_amount (filter (\<lambda>r. key r = Some k) rs))"
  by (auto simp: groupby_sum_def)

lemma sort_values_desc_sorted:
  "sorted_wrt (\<lambda>a b. key_of dt (snd b) \<le> key_of dt (snd a)) (sort_values_desc dt xs)"
proof -
  have "sorted (map (\<lambda>e. key_of dt (snd e)) (sort_key (\<lambda>e. key_of dt (snd e)) (rev xs)))"
    by (rule sorted_sort_key)
  then have "sorted_wrt (\<lambda>a b. key_of dt (snd a) \<le> key_of dt (snd b))
      (sort_key (\<lambda>e. key_of dt (snd e)) (rev xs))"
    by (simp add: sorted_wrt_map)
  then show ?thesis
    unfolding sort_values_desc_def by (simp add: sorted_wrt_rev)
qed

text \<open>Among categories of equal sales the names ascend. This is the order that a stable
  sort gives; pandas does not promise one for its default sort kind.\<close>

lemma insort_key_ties:
  fixes y :: "'k::linorder \<times> 'n" and f :: "'k \<times> 'n \<Rightarrow> int"
  assumes "sorted_wrt (\<lambda>a b. f a < f b \<or> (f a = f b \<and> fst b < fst a)) zs"
    and "\<forall>z\<in>set zs. fst z < fst y"
  shows "sorted_wrt (\<lambda>a b. f a < f b \<or> (f a = f b \<and> fst b < fst a)) (insort_key f y zs)"
  using assms
proof (induction zs)
  case Nil
  show ?case by simp
next
  case (Cons z zs)
  show ?case
  proof (cases "f y \<le> f z")
    case True
    have "f y < f w \<or> (f y = f w \<and> fst w < fst y)" if "w \<in> set (z # zs)" for w
    proof -
      have "f z \<le> f w" using Cons.prems(1) that by auto
      with True have "f y \<le> f w" by simp
      moreover have "fst w < fst y" using Cons.prems(2) that by blast
      ultimately show ?thesis by auto
    qed
    then show ?thesis using True Cons.prems(1) by simp
  next
    case False
    then have "f z < f y" by simp
    moreover have "sorted_wrt (\<lambda>a b. f a < f b \<or> (f a = f b \<and> fst b < fst a)) (insort_key f y zs)"
      using Cons by simp
    ultimately show ?thesis using False Cons.prems(1) by (auto simp: set_insort_key)
  qed
qed

lemma sort_key_ties:
  fixes ys :: "('k::linorder \<times> 'n) list" and f :: "'k \<times> 'n \<Rightarrow> int"
  assumes "sorted_wrt (\<lambda>a b. fst b < fst a) ys"
  shows "sorted_wrt (\<lambda>a b. f a < f b \<or> (f a = f b \<and> fst b < fst a)) (sort_key f ys)"
  using assms
proof (induction ys)
  case Nil
  show ?case by simp
next
  case (Cons y ys)
  have "\<forall>z\<in>set (sort_key f ys). fst z < fst y" using Cons.prems by simp
  moreover have "sorted_wrt (\<lambda>a b. f a < f b \<or> (f a = f b \<and> fst b < fst a)) (sort_key f ys)"
    using Cons by simp
  ultimately show ?case by (simp add: insort_key_ties)
qed

lemma groupby_sum_keys_ascending:
  "sorted_wrt (\<lambda>a b. fst a < fst b) (groupby_sum dt key rs)"
proof -
  have "sorted_wrt (<) (sort (remdups (List.map_filter key rs)))"
    by (simp add: strict_sorted_iff)
  then show ?thesis
    by (simp add: groupby_sum_def sorted_wrt_map)
qed

lemma category_sales_ties:
  "sorted_wrt (\<lambda>a b. key_of dt (snd b) < key_of dt (snd a) \<or>
      (key_of dt (snd a) = key_of dt (snd b) \<and> fst a < fst b)) (category_sales dt df)"
proof -
  have "sorted_wrt (\<lambda>a b. fst b < fst a) (rev (groupby_sum dt category (rows df)))"
    using groupby_sum_keys_ascending [of dt category "rows df"] by (simp add: sorted_wrt_rev)
  then have "sorted_wrt (\<lambda>a b. key_of dt (snd a) < key_of dt (snd b) \<or>
      (key_of dt (snd a) = key_of dt (snd b) \<and> fst b < fst a))
      (sort_key (\<lambda>e. key_of dt (snd e)) (rev (groupby_sum dt category (rows df))))"
    by (rule sort_key_ties)
  then show ?thesis
    unfolding category_sales_def sort_values_desc_def sorted_wrt_rev
    by (rule sorted_wrt_mono_rel [rotated]) auto
qed

lemma category_sales_keys:
  "set (map fst (category_sales dt df)) = {c. \<exists>r\<in>set (rows df). category r = Some c} \<and>
   distinct (map fst (category_sales dt df))"
proof -
  have "mset (map fst (category_sales dt df)) = mset (map fst (groupby_sum dt category (rows df)))"
    by (simp add: category_sales_def)
  then have "set (map fst (category_sales dt df)) = set (map fst (groupby_sum dt category (rows df)))"
    and "distinct (map fst (category_sales dt df)) = distinct (map fst (groupby_sum dt category (rows df)))"
    by (rule mset_eq_setD, rule mset_eq_imp_distinct_iff)
  then show ?thesis
    unfolding groupby_sum_keys by (simp add: set_map_filter_key)
qed

text \<open>
  Claim C4. The sequence of \<^verbatim>\<open>category_sales\<close> has one entry for each category that
  occurs in the table; the entry of a category holds the sum that the grouping takes of
  the amounts of the records of that category; the sequence is sorted non-increasing by
  these sums; and among entries of equal sum the names of the categories ascend, so the
  order on ties is fixed.
\<close>

theorem category_sales_sorted:
  "set (map fst (category_sales dt df)) = {c. \<exists>r\<in>set (rows df). category r = Some c} \<and>
   distinct (map fst (category_sales dt df)) \<and>
   (\<forall>e\<in>set (category_sales dt df).
      snd e = group_sum dt (map total_amount (filter (\<lambda>r. category r = Some (fst e)) (rows df)))) \<and>
   sorted_wrt (\<lambda>a b. key_of dt (snd b) \<le> key_of dt (snd a)) (category_sales dt df) \<and>
   sorted_wrt (\<lambda>a b. key_of dt (snd a) = key_of dt (snd b) \<longrightarrow> fst a < fst b)
     (category_sales dt df)"
proof -
  have e: "\<forall>e\<in>set (category_sales dt df).
      snd e = group_sum dt (map total_amount (filter (\<lambda>r. category r = Some (fst e)) (rows df)))"
    unfolding category_sales_def using groupby_sum_entry [where dt = dt and key = category and rs = "rows df"]
    by auto
  have s: "sorted_wrt (\<lambda>a b. key_of dt (snd b) \<le> key_of dt (snd a)) (category_sales dt df)"
    unfolding category_sales_def by (rule sort_values_desc_sorted)
  have t: "sorted_wrt (\<lambda>a b. key_of dt (snd a) = key_of dt (snd b) \<longrightarrow> fst a < fst b)
      (category_sales dt df)"
    by (rule sorted_wrt_mono_rel [OF _ category_sales_ties]) auto
  from category_sales_keys [of dt df] e s t show ?thesis by (intro conjI) auto
qed

text \<open>In \<open>tie_table\<close> two records make up the 5 of Electronics, which ties with Accessories.\<close>

theorem category_sales_sorted_witness:
  "category_sales int64 tie_table = [(''Audio'', 7), (''Accessories'', 5), (''Electronics'', 5)] \<and>
   map total_amount (filter (\<lambda>r. category r = Some ''Electronics'') (rows tie_table)) = [Some 3, Some 2] \<and>
   snd (category_sales int64 tie_table ! 2) =
     group_sum int64 (map total_amount (filter (\<lambda>r. category r = Some ''Electronics'') (rows tie_table)))"
proof -
  have m: "map total_amount (filter (\<lambda>r. category r = Some ''Electronics'') (rows tie_table)) = [Some 3, Some 2]"
    by (simp add: tie_table_def example_table_def example_rows_def)
  note entries = category_sales_sorted [of int64 tie_table, THEN conjunct2, THEN conjunct2,
      THEN conjunct1]
  have i: "category_sales int64 tie_table ! 2 \<in> set (category_sales int64 tie_table)"
    by (simp add: category_sales_tie_example)
  have f: "fst (category_sales int64 tie_table ! 2) = ''Electronics''"
    by (simp add: category_sales_tie_example)
  have "snd (category_sales int64 tie_table ! 2) =
     group_sum int64 (map total_amount
       (filter (\<lambda>r. category r = Some (fst (category_sales int64 tie_table ! 2))) (rows tie_table)))"
    using entries i by (rule bspec)
  then have "snd (category_sales int64 tie_table ! 2) =
     group_sum int64 (map total_amount (filter (\<lambda>r. category r = Some ''Electronics'') (rows tie_table)))"
    unfolding f .
  with m show ?thesis using category_sales_tie_example by (intro conjI)
qed

end
